theory Spec2Isabelle
  imports Main "HOL-Library.Word"
begin

section \<open>JavaScript strings\<close>

text \<open>
  A JavaScript string is a sequence of UTF-16 code units. A code unit is modelled as an
  \<open>int\<close> (the functions below only ever produce values in \<open>0..0xFFFF\<close>); a string
  literal of the source is written \<open>lit ''...''\<close>.
\<close>

type_synonym jstr = "int list"

definition lit :: "string \<Rightarrow> jstr" where
  "lit s = map of_char s"

text \<open>\<open>s.startsWith(p)\<close>, \<open>s.includes(p)\<close> and \<open>s.split(c)\<close> for a one-unit separator.\<close>

definition startsWith :: "jstr \<Rightarrow> jstr \<Rightarrow> bool" where
  "startsWith s p = (take (length p) s = p)"

fun str_includes :: "jstr \<Rightarrow> jstr \<Rightarrow> bool" where
  "str_includes [] p = (p = [])"
| "str_includes (x # xs) p = (startsWith (x # xs) p \<or> str_includes xs p)"

fun split_on :: "int \<Rightarrow> jstr \<Rightarrow> jstr list" where
  "split_on c [] = [[]]"
| "split_on c (x # xs) =
     (if x = c then [] # split_on c xs
      else (case split_on c xs of
              [] \<Rightarrow> [[x]]
            | l # ls \<Rightarrow> (x # l) # ls))"

text \<open>
  \<open>s.trim()\<close> removes leading and trailing WhiteSpace and LineTerminator code units
  (ECMA-262): TAB, LF, VT, FF, CR, SP, NBSP, U+1680, U+2000..U+200A, U+2028, U+2029,
  U+202F, U+205F, U+3000 and U+FEFF.
\<close>

definition is_space :: "int \<Rightarrow> bool" where
  "is_space c =
     ((9 \<le> c \<and> c \<le> 13) \<or> c = 32 \<or> c = 160 \<or> c = 0x1680 \<or> (0x2000 \<le> c \<and> c \<le> 0x200A)
      \<or> c = 0x2028 \<or> c = 0x2029 \<or> c = 0x202F \<or> c = 0x205F \<or> c = 0x3000 \<or> c = 0xFEFF)"

definition trim :: "jstr \<Rightarrow> jstr" where
  "trim s = rev (dropWhile is_space (rev (dropWhile is_space s)))"

section \<open>llm.ts: the streaming completion client\<close>

subsection \<open>TextDecoder\<close>

text \<open>
  \<open>new TextDecoder()\<close> is the platform's UTF-8 decoder (WHATWG Encoding Standard) in
  replacement mode. \<open>decoder.decode(value, {stream: true})\<close> runs the bytes of
  \<open>value\<close> through the decoder's handler one at a time and keeps the handler's state
  (and the "BOM seen" flag) for the next call; the model follows the standard's handler
  step by step. The source never calls \<open>decode\<close> without \<open>stream: true\<close>, so the
  decoder is never flushed.
\<close>

record text_decoder =
  code_point :: int
  bytes_seen :: nat
  bytes_needed :: nat
  lower_boundary :: int
  upper_boundary :: int
  bom_seen :: bool

definition new_TextDecoder :: text_decoder where
  "new_TextDecoder =
     \<lparr>code_point = 0, bytes_seen = 0, bytes_needed = 0,
      lower_boundary = 0x80, upper_boundary = 0xBF, bom_seen = False\<rparr>"

text \<open>The handler on a byte when no sequence is open (step 2 of the standard's handler).\<close>

definition utf8_lead :: "text_decoder \<Rightarrow> int \<Rightarrow> text_decoder \<times> int list" where
  "utf8_lead d b =
     (if b \<le> 0x7F then (d, [b])
      else if 0xC2 \<le> b \<and> b \<le> 0xDF then
        (d\<lparr>bytes_needed := 1, code_point := b mod 32\<rparr>, [])
      else if 0xE0 \<le> b \<and> b \<le> 0xEF then
        (d\<lparr>lower_boundary := (if b = 0xE0 then 0xA0 else lower_boundary d),
           upper_boundary := (if b = 0xED then 0x9F else upper_boundary d),
           bytes_needed := 2, code_point := b mod 16\<rparr>, [])
      else if 0xF0 \<le> b \<and> b \<le> 0xF4 then
        (d\<lparr>lower_boundary := (if b = 0xF0 then 0x90 else lower_boundary d),
           upper_boundary := (if b = 0xF4 then 0x8F else upper_boundary d),
           bytes_needed := 3, code_point := b mod 8\<rparr>, [])
      else (d, [0xFFFD]))"

definition utf8_reset :: "text_decoder \<Rightarrow> text_decoder" where
  "utf8_reset d =
     d\<lparr>code_point := 0, bytes_needed := 0, bytes_seen := 0,
       lower_boundary := 0x80, upper_boundary := 0xBF\<rparr>"

text \<open>
  The handler: the code points one byte produces. A byte outside the expected range
  ends the open sequence with U+FFFD and is then handled again as a first byte.
\<close>

definition utf8_handler :: "text_decoder \<Rightarrow> int \<Rightarrow> text_decoder \<times> int list" where
  "utf8_handler d b =
     (if bytes_needed d = 0 then utf8_lead d b
      else if b < lower_boundary d \<or> upper_boundary d < b then
        (case utf8_lead (utf8_reset d) b of (d', out) \<Rightarrow> (d', 0xFFFD # out))
      else
        (let d1 = d\<lparr>lower_boundary := 0x80, upper_boundary := 0xBF,
                      code_point := code_point d * 64 + b mod 64,
                      bytes_seen := bytes_seen d + 1\<rparr>
         in if bytes_seen d1 \<noteq> bytes_needed d1 then (d1, [])
            else (d1\<lparr>code_point := 0, bytes_needed := 0, bytes_seen := 0\<rparr>, [code_point d1])))"

text \<open>A code point as UTF-16 code units.\<close>

definition utf16 :: "int \<Rightarrow> jstr" where
  "utf16 c =
     (if c < 0x10000 then [c]
      else [0xD800 + (c - 0x10000) div 1024, 0xDC00 + (c - 0x10000) mod 1024])"

text \<open>
  Serialising the decoder's output: the first code point ever produced sets "BOM seen",
  and is dropped when it is U+FEFF.
\<close>

fun serialize :: "bool \<Rightarrow> int list \<Rightarrow> bool \<times> jstr" where
  "serialize seen [] = (seen, [])"
| "serialize seen (c # cs) =
     (if \<not> seen \<and> c = 0xFEFF then serialize True cs
      else (case serialize True cs of (seen', out) \<Rightarrow> (seen', utf16 c @ out)))"

definition decode_byte :: "text_decoder \<Rightarrow> 8 word \<Rightarrow> text_decoder \<times> jstr" where
  "decode_byte d b =
     (case utf8_handler d (uint b) of
        (d1, cps) \<Rightarrow>
          (case serialize (bom_seen d1) cps of
             (seen, out) \<Rightarrow> (d1\<lparr>bom_seen := seen\<rparr>, out)))"

text \<open>\<open>decoder.decode(value, {stream: true})\<close>: the new decoder state and the text.\<close>

fun decode :: "text_decoder \<Rightarrow> 8 word list \<Rightarrow> text_decoder \<times> jstr" where
  "decode d [] = (d, [])"
| "decode d (b # bs) =
     (case decode_byte d b of
        (d1, out1) \<Rightarrow> (case decode d1 bs of (d2, out2) \<Rightarrow> (d2, out1 @ out2)))"

subsection \<open>JSON values\<close>

text \<open>
  \<open>JSON.parse\<close> is the platform's; the model takes it as a parameter \<open>parse\<close> that
  returns \<open>None\<close> where \<open>JSON.parse\<close> throws. A parsed object lists its own properties
  (each key once). Numbers are kept as the text of their literal.
\<close>

datatype json =
    JNull
  | JBool bool
  | JNumber jstr
  | JString jstr
  | JArray "json list"
  | JObject "(jstr \<times> json) list"

type_synonym JSON_parse = "jstr \<Rightarrow> json option"

text \<open>
  \<open>v?.name\<close> for the property names the source reads (\<open>choices\<close>, \<open>delta\<close>,
  \<open>message\<close>, \<open>content\<close>, \<open>error\<close>), none of which a string, an array, a number or a
  boolean has: \<open>None\<close> is \<open>undefined\<close>.
\<close>

fun get_prop :: "jstr \<Rightarrow> json \<Rightarrow> json option" where
  "get_prop name (JObject kvs) = map_of kvs name"
| "get_prop name _ = None"

text \<open>\<open>v?.[0]\<close>: the first element of an array, the first unit of a string, the property \<open>"0"\<close> of an object.\<close>

fun index0 :: "json \<Rightarrow> json option" where
  "index0 (JArray (x # xs)) = Some x"
| "index0 (JString (c # cs)) = Some (JString [c])"
| "index0 (JObject kvs) = map_of kvs (lit ''0'')"
| "index0 _ = None"

text \<open>\<open>typeof c === "string"\<close> after the optional chain.\<close>

fun string_value :: "json option \<Rightarrow> jstr option" where
  "string_value (Some (JString s)) = Some s"
| "string_value _ = None"

text \<open>\<open>data?.choices?.[0]?.delta?.content\<close> and \<open>data?.choices?.[0]?.message?.content\<close>.\<close>

definition choice_content :: "jstr \<Rightarrow> json \<Rightarrow> jstr option" where
  "choice_content field data =
     string_value
       (Option.bind (Option.bind (Option.bind (get_prop (lit ''choices'') data) index0)
          (get_prop field)) (get_prop (lit ''content'')))"

abbreviation delta_content :: "json \<Rightarrow> jstr option" where
  "delta_content \<equiv> choice_content (lit ''delta'')"

abbreviation message_content :: "json \<Rightarrow> jstr option" where
  "message_content \<equiv> choice_content (lit ''message'')"

subsection \<open>Events and the read loop\<close>

text \<open>
  \<open>StreamResult\<close>. The optional field \<open>aborted\<close> of an error event is present (and
  \<open>true\<close>) exactly when the flag is \<open>True\<close>.
\<close>

datatype StreamResult =
    Chunk jstr
  | Done
  | Error jstr bool

text \<open>
  The \<open>for\<close> loop over the complete lines of one read (\<open>lines[0 .. length-2]\<close>), with
  \<open>yieldCount\<close> passed through. The second component is \<open>None\<close> when the loop hit the
  terminal marker and the generator returned, and the new \<open>yieldCount\<close> otherwise.
  Calls of \<open>log\<close> (a diagnostic sink, a no-op by default) and the counters and flags
  that only feed it (\<open>readCount\<close>, \<open>loggedDeltaKeys\<close>, \<open>loggedParseErr\<close>) are left out.
\<close>

fun process_lines :: "JSON_parse \<Rightarrow> nat \<Rightarrow> jstr list \<Rightarrow> StreamResult list \<times> nat option" where
  "process_lines parse yc [] = ([], Some yc)"
| "process_lines parse yc (l # ls) =
     (let line = trim l in
      if line = [] \<or> line = lit '':'' then process_lines parse yc ls
      else if line = lit ''[DONE]'' \<or> line = lit ''data: [DONE]'' then ([Done], None)
      else if startsWith line (lit ''data: '') then
        (case parse (drop 6 line) of
           None \<Rightarrow> process_lines parse yc ls
         | Some data \<Rightarrow>
             (case delta_content data of
                Some content \<Rightarrow>
                  (case process_lines parse (yc + 1) ls of
                     (evs, r) \<Rightarrow> (Chunk content # evs, r))
              | None \<Rightarrow> process_lines parse yc ls))
      else process_lines parse yc ls)"

text \<open>The variables the read loop keeps between reads.\<close>

record stream_state =
  decoder :: text_decoder
  buffer :: jstr
  fallbackBuffer :: jstr
  yieldCount :: nat

definition initial_state :: stream_state where
  "initial_state =
     \<lparr>decoder = new_TextDecoder, buffer = [], fallbackBuffer = [], yieldCount = 0\<rparr>"

text \<open>
  One iteration of \<open>while (true)\<close> whose read delivered bytes: the events it yields and
  the state for the next read (\<open>None\<close> when the generator returned on the terminal
  marker).
\<close>

definition on_value ::
  "JSON_parse \<Rightarrow> stream_state \<Rightarrow> 8 word list \<Rightarrow> StreamResult list \<times> stream_state option" where
  "on_value parse s v =
     (case decode (decoder s) v of
        (d, decoded) \<Rightarrow>
          (let fb = (if yieldCount s = 0 then fallbackBuffer s @ decoded else fallbackBuffer s);
               lines = split_on 10 (buffer s @ decoded)
           in case process_lines parse (yieldCount s) (butlast lines) of
                (evs, None) \<Rightarrow> (evs, None)
              | (evs, Some yc) \<Rightarrow>
                  (evs, Some \<lparr>decoder = d, buffer = last lines, fallbackBuffer = fb,
                              yieldCount = yc\<rparr>)))"

text \<open>The iteration whose read reported \<open>done\<close>: the fallback parse or the carried last line, then \<open>Done\<close>.\<close>

definition on_done :: "JSON_parse \<Rightarrow> stream_state \<Rightarrow> StreamResult list" where
  "on_done parse s =
     (if yieldCount s = 0 \<and> startsWith (trim (fallbackBuffer s)) (lit ''{'') then
        (case parse (fallbackBuffer s) of
           None \<Rightarrow> []
         | Some data \<Rightarrow>
             (case message_content data of Some c \<Rightarrow> [Chunk c] | None \<Rightarrow> []))
      else
        (let remaining = trim (buffer s) in
         if remaining \<noteq> [] \<and> remaining \<noteq> lit ''[DONE]'' \<and> remaining \<noteq> lit ''data: [DONE]''
            \<and> startsWith remaining (lit ''data: '')
         then
           (case parse (drop 6 remaining) of
              None \<Rightarrow> []
            | Some data \<Rightarrow>
                (case delta_content data of Some c \<Rightarrow> [Chunk c] | None \<Rightarrow> []))
         else []))
     @ [Done]"

text \<open>
  A thrown value, as far as the \<open>catch\<close> blocks read it: an \<open>Error\<close> object with its
  \<open>name\<close> and with what its \<open>message\<close> gives inside a template literal, or any other
  value with what \<open>String(e)\<close> gives. The conversion to a string is \<open>None\<close> when it
  throws itself (a \<open>message\<close> that is a symbol, a value without a usable \<open>toString\<close>):
  a rejected \<open>fetch\<close> or read hands over the abort reason of the caller's signal, which
  can be any value.
\<close>

datatype thrown =
    ErrorObject jstr "jstr option"
  | OtherValue "jstr option"

fun is_AbortError :: "thrown \<Rightarrow> bool" where
  "is_AbortError (ErrorObject name msg) = (name = lit ''AbortError'')"
| "is_AbortError (OtherValue s) = False"

text \<open>\<open>e instanceof Error ? e.message : String(e)\<close> inside a template literal.\<close>

fun error_text :: "thrown \<Rightarrow> jstr option" where
  "error_text (ErrorObject name msg) = msg"
| "error_text (OtherValue s) = s"

text \<open>
  The two \<open>catch\<close> blocks (around \<open>fetch\<close> and around the read loop) differ in the
  prefix only. Each first builds the text of its log line, before any \<open>yield\<close>; when
  that conversion throws, the block is left by the exception and yields nothing
  (\<open>None\<close>). The function \<open>log\<close> itself is taken to return, as the default one does.
\<close>

definition catch_event :: "string \<Rightarrow> thrown \<Rightarrow> StreamResult option" where
  "catch_event prefix e =
     (case error_text e of
        None \<Rightarrow> None
      | Some err \<Rightarrow>
          Some (if is_AbortError e then Error (lit ''Request aborted.'') True
                else Error (lit prefix @ err) False))"

text \<open>A \<open>catch\<close> block ends the generator: with its event, or with the exception.\<close>

text \<open>
  What \<open>await reader.read()\<close> does, one entry per call: it delivers bytes, reports
  \<open>done\<close>, or rejects. A script that runs out stands for a read that never settles.
\<close>

datatype read_result =
    Value "8 word list"
  | EndOfStream
  | ReadThrows thrown

text \<open>
  How far the generator got: it returned, it is still waiting on \<open>fetch\<close> or on a
  read, or it was left by an exception that no \<open>catch\<close> block of the source handles.
\<close>

datatype outcome = Returned | Pending | Threw

definition caught :: "string \<Rightarrow> thrown \<Rightarrow> StreamResult list \<times> outcome" where
  "caught prefix e =
     (case catch_event prefix e of
        Some ev \<Rightarrow> ([ev], Returned)
      | None \<Rightarrow> ([], Threw))"

fun read_loop ::
  "JSON_parse \<Rightarrow> stream_state \<Rightarrow> read_result list \<Rightarrow> StreamResult list \<times> outcome" where
  "read_loop parse s [] = ([], Pending)"
| "read_loop parse s (EndOfStream # rs) = (on_done parse s, Returned)"
| "read_loop parse s (ReadThrows e # rs) = caught ''Streaming error: '' e"
| "read_loop parse s (Value v # rs) =
     (case on_value parse s v of
        (evs, None) \<Rightarrow> (evs, Returned)
      | (evs, Some s') \<Rightarrow>
          (case read_loop parse s' rs of (evs', out) \<Rightarrow> (evs @ evs', out)))"

subsection \<open>The generator\<close>

text \<open>Decimal digits of a number, as \<open>String(n)\<close> and a template literal print it.\<close>

fun decimal :: "nat \<Rightarrow> jstr" where
  "decimal n = (if n < 10 then [48 + int n] else decimal (n div 10) @ [48 + int (n mod 10)])"

declare decimal.simps [simp del]

text \<open>
  The \<open>Response\<close> that \<open>fetch\<close> resolves to, as far as the source reads it: \<open>ok\<close>,
  \<open>status\<close>, \<open>statusText\<close>, what \<open>await res.json()\<close> and \<open>await res.text()\<close> give
  (\<open>Inl\<close> when they reject), and the reads of the body's reader (\<open>None\<close> when
  \<open>res.body\<close> is null).
\<close>

record response =
  ok :: bool
  status :: nat
  statusText :: jstr
  json_result :: "thrown + json"
  text_result :: "thrown + jstr"
  body :: "read_result list option"

text \<open>
  \<open>await fetch(url, {...})\<close>: it rejects, resolves, or never settles. The arguments of
  \<open>streamOpenAIChat\<close> (URL, key, model, messages, signal, options) reach the events
  only through what \<open>fetch\<close> and the reads answer; a fired timeout or abort signal shows
  as a rejected \<open>fetch\<close> or read, or as a read that reports \<open>done\<close> after
  \<open>reader.cancel()\<close>.
\<close>

datatype fetch_result =
    FetchRejects thrown
  | FetchResolves response
  | FetchPending

text \<open>
  The conversion to a string that a template literal applies to a value that came out of
  \<open>res.json()\<close> (ECMA-262 ToString). A string is itself; \<open>null\<close> and the booleans
  give their names; a number gives what Number::toString makes of it, which is the
  parameter \<open>num\<close> (it gets the number as the body writes it). An array is joined by
  \<open>Array.prototype.join\<close>: its elements converted in turn, \<open>null\<close> as the empty string,
  with commas between them. An object goes through OrdinaryToPrimitive: with no own
  \<open>toString\<close> key, \<open>Object.prototype.toString\<close> answers \<open>[object Object]\<close>; an own
  \<open>toString\<close> key holds a JSON value, which is not callable, and \<open>valueOf\<close> (own, or
  the inherited one, which returns the object) gives no primitive either, so the
  conversion throws TypeError (\<open>None\<close>).
\<close>

fun join_elements :: "jstr option list \<Rightarrow> jstr option" where
  "join_elements [] = Some []"
| "join_elements [x] = x"
| "join_elements (x # xs) =
     (case x of
        None \<Rightarrow> None
      | Some a \<Rightarrow> map_option (\<lambda>r. a @ lit '','' @ r) (join_elements xs))"

fun to_string :: "(jstr \<Rightarrow> jstr) \<Rightarrow> json \<Rightarrow> jstr option" where
  "to_string num JNull = Some (lit ''null'')"
| "to_string num (JBool b) = Some (if b then lit ''true'' else lit ''false'')"
| "to_string num (JNumber n) = Some (num n)"
| "to_string num (JString s) = Some s"
| "to_string num (JArray xs) =
     join_elements (map (\<lambda>x. if x = JNull then Some [] else to_string num x) xs)"
| "to_string num (JObject kvs) =
     (if get_prop (lit ''toString'') (JObject kvs) = None then Some (lit ''[object Object]'')
      else None)"

text \<open>
  The detail of the error event for a response that is not \<open>ok\<close>:
  \<open>j?.error?.message ?? res.statusText\<close>, the body's text when \<open>res.json()\<close> rejects,
  \<open>res.statusText\<close> when \<open>res.text()\<close> rejects too; then its conversion inside the
  template literal of the event, which stands outside every \<open>try\<close> block: \<open>None\<close> when
  that conversion throws.
\<close>

definition error_detail :: "(jstr \<Rightarrow> jstr) \<Rightarrow> response \<Rightarrow> jstr option" where
  "error_detail num res =
     (case json_result res of
        Inr j \<Rightarrow>
          (case Option.bind (get_prop (lit ''error'') j) (get_prop (lit ''message'')) of
             None \<Rightarrow> Some (statusText res)
           | Some JNull \<Rightarrow> Some (statusText res)
           | Some v \<Rightarrow> to_string num v)
      | Inl e \<Rightarrow>
          (case text_result res of
             Inr t \<Rightarrow> Some t
           | Inl e' \<Rightarrow> Some (statusText res)))"

definition streamOpenAIChat ::
  "JSON_parse \<Rightarrow> (jstr \<Rightarrow> jstr) \<Rightarrow> fetch_result \<Rightarrow> StreamResult list \<times> outcome" where
  "streamOpenAIChat parse num fetched =
     (case fetched of
        FetchPending \<Rightarrow> ([], Pending)
      | FetchRejects e \<Rightarrow> caught ''Network error: '' e
      | FetchResolves res \<Rightarrow>
          if \<not> ok res then
            (case error_detail num res of
               Some detail \<Rightarrow>
                 ([Error (lit ''API error ('' @ decimal (status res) @ lit ''): '' @ detail) False],
                  Returned)
             | None \<Rightarrow> ([], Threw))
          else
            (case body res of
               None \<Rightarrow> ([Error (lit ''Response body is empty'') False], Returned)
             | Some reads \<Rightarrow> read_loop parse initial_state reads))"

section \<open>Regular expressions\<close>

text \<open>
  The regular expressions of \<open>markdown.ts\<close> are written as values of \<open>re\<close> and run by a
  backtracking matcher that follows ECMA-262: alternatives are tried left to right, a
  greedy quantifier tries one more iteration before it tries to stop, a lazy one the other
  way round, and an iteration of \<open>*\<close> that consumes nothing is rejected. \<open>Cls\<close> and
  \<open>NCls\<close> are a character class and a negated class, given as inclusive ranges of code
  units; \<open>NotBehind\<close> is a negative lookbehind for one character of a class; \<open>Group n\<close>
  is the capturing group number \<open>n\<close>.
\<close>

datatype re =
    Lit jstr
  | Cls "(int \<times> int) list"
  | NCls "(int \<times> int) list"
  | Seq re re
  | Alt re re
  | Opt re
  | Star re
  | LazyStar re
  | Group nat re
  | Bol
  | Eol
  | Ahead re
  | NotBehind "(int \<times> int) list"

fun in_ranges :: "int \<Rightarrow> (int \<times> int) list \<Rightarrow> bool" where
  "in_ranges c [] = False"
| "in_ranges c ((lo, hi) # rs) = ((lo \<le> c \<and> c \<le> hi) \<or> in_ranges c rs)"

text \<open>
  A position in the subject: the code unit just before it (\<open>None\<close> at the start of the
  string) and the rest of the string. \<open>rmatch r caps pos\<close> lists, in the order
  backtracking tries them, the ways \<open>r\<close> can match at \<open>pos\<close>: the captures and the
  position after the match.
\<close>

type_synonym captures = "(nat \<times> jstr) list"
type_synonym pos = "int option \<times> jstr"

fun rmatch :: "re \<Rightarrow> captures \<Rightarrow> pos \<Rightarrow> (captures \<times> pos) list" where
  "rmatch (Lit l) caps (p, s) =
     (if startsWith s l then [(caps, (if l = [] then p else Some (last l), drop (length l) s))]
      else [])"
| "rmatch (Cls rs) caps (p, s) =
     (case s of
        [] \<Rightarrow> []
      | c # s' \<Rightarrow> if in_ranges c rs then [(caps, (Some c, s'))] else [])"
| "rmatch (NCls rs) caps (p, s) =
     (case s of
        [] \<Rightarrow> []
      | c # s' \<Rightarrow> if in_ranges c rs then [] else [(caps, (Some c, s'))])"
| "rmatch (Seq a b) caps pos =
     concat (map (\<lambda>(caps', pos'). rmatch b caps' pos') (rmatch a caps pos))"
| "rmatch (Alt a b) caps pos = rmatch a caps pos @ rmatch b caps pos"
| "rmatch (Opt a) caps pos = rmatch a caps pos @ [(caps, pos)]"
| "rmatch (Star a) caps (p, s) =
     concat (map (\<lambda>(caps', (p', s')).
                    if length s' < length s then rmatch (Star a) caps' (p', s') else [])
                 (rmatch a caps (p, s)))
     @ [(caps, (p, s))]"
| "rmatch (LazyStar a) caps (p, s) =
     (caps, (p, s))
     # concat (map (\<lambda>(caps', (p', s')).
                      if length s' < length s then rmatch (LazyStar a) caps' (p', s') else [])
                   (rmatch a caps (p, s)))"
| "rmatch (Group n a) caps (p, s) =
     map (\<lambda>(caps', (p', s')). ((n, take (length s - length s') s) # caps', (p', s')))
         (rmatch a caps (p, s))"
| "rmatch Bol caps (p, s) = (if p = None then [(caps, (p, s))] else [])"
| "rmatch Eol caps (p, s) = (if s = [] then [(caps, (p, s))] else [])"
| "rmatch (Ahead a) caps pos =
     (case rmatch a caps pos of
        [] \<Rightarrow> []
      | (caps', pos') # rest \<Rightarrow> [(caps', pos)])"
| "rmatch (NotBehind rs) caps (p, s) =
     (case p of
        None \<Rightarrow> [(caps, (p, s))]
      | Some c \<Rightarrow> if in_ranges c rs then [] else [(caps, (p, s))])"

declare rmatch.simps(7,8) [simp del]

text \<open>\<open>r+\<close>, and a sequence of several parts.\<close>

definition plus :: "re \<Rightarrow> re" where
  "plus r = Seq r (Star r)"

fun seqs :: "re list \<Rightarrow> re" where
  "seqs [] = Lit []"
| "seqs [r] = r"
| "seqs (r # rs) = Seq r (seqs rs)"

text \<open>
  One match of a regular expression without the \<open>g\<close> flag (\<open>s.match(r)\<close>, \<open>r.test(s)\<close>),
  from the position given: the first start position at which \<open>r\<close> matches, with the text
  skipped before it, the captures, the matched text and the position after the match.
\<close>

record found =
  skipped :: jstr
  groups :: captures
  matched :: jstr
  after :: pos

fun re_exec :: "re \<Rightarrow> int option \<Rightarrow> jstr \<Rightarrow> found option" where
  "re_exec r p [] =
     (case rmatch r [] (p, []) of
        [] \<Rightarrow> None
      | (caps, pos') # rest \<Rightarrow>
          Some \<lparr>skipped = [], groups = caps, matched = [], after = pos'\<rparr>)"
| "re_exec r p (c # s) =
     (case rmatch r [] (p, c # s) of
        [] \<Rightarrow>
          (case re_exec r (Some c) s of
             None \<Rightarrow> None
           | Some f \<Rightarrow> Some (f\<lparr>skipped := c # skipped f\<rparr>))
      | (caps, (p', s')) # rest \<Rightarrow>
          Some \<lparr>skipped = [], groups = caps,
                matched = take (length (c # s) - length s') (c # s), after = (p', s')\<rparr>)"

definition re_match :: "re \<Rightarrow> jstr \<Rightarrow> found option" where
  "re_match r s = re_exec r None s"

definition re_test :: "re \<Rightarrow> jstr \<Rightarrow> bool" where
  "re_test r s = (re_match r s \<noteq> None)"

text \<open>
  \<open>m[n]\<close> for a group that may not have taken part in the match (\<open>None\<close> is
  \<open>undefined\<close>), and for a group that every match fills.
\<close>

definition group_opt :: "found \<Rightarrow> nat \<Rightarrow> jstr option" where
  "group_opt f n = map_of (groups f) n"

definition group :: "found \<Rightarrow> nat \<Rightarrow> jstr" where
  "group f n = (case map_of (groups f) n of Some g \<Rightarrow> g | None \<Rightarrow> [])"

text \<open>
  \<open>s.replace(r, fn)\<close> for a regular expression with the \<open>g\<close> flag: every match, from left
  to right, is replaced by \<open>fn\<close> of the matched text; after an empty match the search
  moves on by one code unit.
\<close>

function replace_all :: "re \<Rightarrow> (jstr \<Rightarrow> jstr) \<Rightarrow> int option \<Rightarrow> jstr \<Rightarrow> jstr" where
  "replace_all r fn p s =
     (case rmatch r [] (p, s) of
        (caps, (p', s')) # rest \<Rightarrow>
          if length s' < length s then
            fn (take (length s - length s') s) @ replace_all r fn p' s'
          else
            fn [] @ (case s of [] \<Rightarrow> [] | c # cs \<Rightarrow> c # replace_all r fn (Some c) cs)
      | [] \<Rightarrow> (case s of [] \<Rightarrow> [] | c # cs \<Rightarrow> c # replace_all r fn (Some c) cs))"
  by pat_completeness auto
termination
  by (relation "measure (\<lambda>(r, fn, p, s). length s)") auto

declare replace_all.simps [simp del]

section \<open>markdown.ts: linkifying and rendering\<close>

subsection \<open>Character classes\<close>

definition ch :: "char \<Rightarrow> int" where
  "ch c = of_char c"

definition only :: "char \<Rightarrow> int \<times> int" where
  "only c = (ch c, ch c)"

text \<open>\<open>\d\<close>, \<open>\w\<close>, \<open>[a-zA-Z0-9]\<close>, \<open>\s\<close>, the complement of \<open>.\<close>, and \<open>[a-zA-Z0-9_./\\@+~-]\<close>.\<close>

definition digit :: "(int \<times> int) list" where
  "digit = [(ch CHR ''0'', ch CHR ''9'')]"

definition alnum :: "(int \<times> int) list" where
  "alnum = [(ch CHR ''a'', ch CHR ''z''), (ch CHR ''A'', ch CHR ''Z''), (ch CHR ''0'', ch CHR ''9'')]"

definition word :: "(int \<times> int) list" where
  "word = alnum @ [only CHR ''_'']"

definition space :: "(int \<times> int) list" where
  "space = [(9, 13), (32, 32), (160, 160), (0x1680, 0x1680), (0x2000, 0x200A),
            (0x2028, 0x2029), (0x202F, 0x202F), (0x205F, 0x205F), (0x3000, 0x3000),
            (0xFEFF, 0xFEFF)]"

definition line_terminator :: "(int \<times> int) list" where
  "line_terminator = [(10, 10), (13, 13), (0x2028, 0x2029)]"

definition path_char :: "(int \<times> int) list" where
  "path_char = alnum @ [only CHR ''_'', only CHR ''.'', only CHR ''/'', (0x5C, 0x5C),
                        only CHR ''@'', only CHR ''+'', only CHR ''~'', only CHR ''-'']"

text \<open>The tail \<open>(?:-\d+)?(?::\d+)?\<close> that several expressions share.\<close>

definition range_col_tail :: "re list" where
  "range_col_tail =
     [Opt (Seq (Lit (lit ''-'')) (plus (Cls digit))), Opt (Seq (Lit (lit '':'')) (plus (Cls digit)))]"

subsection \<open>escapeHtml, normalizePath\<close>

text \<open>\<open>s.replace(/c/g, by)\<close> for a single code unit \<open>c\<close>.\<close>

fun replace_unit :: "int \<Rightarrow> jstr \<Rightarrow> jstr \<Rightarrow> jstr" where
  "replace_unit c by [] = []"
| "replace_unit c by (x # xs) = (if x = c then by @ replace_unit c by xs else x # replace_unit c by xs)"

definition escapeHtml :: "jstr \<Rightarrow> jstr" where
  "escapeHtml s =
     replace_unit (ch CHR 0x22) (lit ''&quot;'')
       (replace_unit (ch CHR ''>'') (lit ''&gt;'')
          (replace_unit (ch CHR ''<'') (lit ''&lt;'')
             (replace_unit (ch CHR ''&'') (lit ''&amp;'') s)))"

text \<open>\<open>p.replace(/^rc\//, "src/").replace(/^srs\//, "src/")\<close>.\<close>

definition normalizePath :: "jstr \<Rightarrow> jstr" where
  "normalizePath p =
     (let p1 = (if startsWith p (lit ''rc/'') then lit ''src/'' @ drop 3 p else p)
      in if startsWith p1 (lit ''srs/'') then lit ''src/'' @ drop 4 p1 else p1)"

subsection \<open>The href of an open-file command\<close>

text \<open>
  A line or column number is a JavaScript number that \<open>parseInt(d, 10)\<close> made of a
  string of decimal digits, or the constant 1. Below \<open>2^53\<close> (9007199254740992) the
  number is the integer that the digits write, and it prints as its decimal digits:
  \<open>Exact\<close>. From there on it is a double: the integer rounded to 53 bits, \<open>Infinity\<close> for
  a few hundred digits, chosen by the implementation past the twentieth digit, and
  printed with an exponent from \<open>10^21\<close>. Such a number is kept as \<open>Approx d\<close> with its
  digits \<open>d\<close>, and what the platform makes of it is a parameter of the model: how it
  prints in \<open>String(x)\<close> and in a template literal, how \<open>JSON.stringify\<close> prints it
  (\<open>null\<close> for \<open>Infinity\<close>), and how two such numbers compare. The two printing functions
  give 8-bit characters (digits, \<open>.\<close>, \<open>e\<close>, \<open>+\<close>, letters).
\<close>

datatype number = Exact int | Approx jstr

record doubles =
  approx_string :: "jstr \<Rightarrow> string"
  approx_json :: "jstr \<Rightarrow> string"
  approx_ge :: "jstr \<Rightarrow> jstr \<Rightarrow> bool"

definition parseInt :: "jstr \<Rightarrow> number" where
  "parseInt d =
     (let n = foldl (\<lambda>n c. 10 * n + (c - 48)) 0 d
      in if n < 9007199254740992 then Exact n else Approx d)"

text \<open>\<open>String(x)\<close> and \<open>${x}\<close>; \<open>x > 0\<close>; \<open>x >= y\<close>.\<close>

definition number_string :: "doubles \<Rightarrow> number \<Rightarrow> jstr" where
  "number_string dbl x =
     (case x of Exact n \<Rightarrow> decimal (nat n) | Approx d \<Rightarrow> lit (approx_string dbl d))"

definition positive :: "number \<Rightarrow> bool" where
  "positive x = (case x of Exact n \<Rightarrow> n > 0 | Approx d \<Rightarrow> True)"

definition number_ge :: "doubles \<Rightarrow> number \<Rightarrow> number \<Rightarrow> bool" where
  "number_ge dbl x y =
     (case x of
        Exact a \<Rightarrow> (case y of Exact b \<Rightarrow> a \<ge> b | Approx e \<Rightarrow> False)
      | Approx d \<Rightarrow> (case y of Exact b \<Rightarrow> True | Approx e \<Rightarrow> approx_ge dbl d e))"

text \<open>
  \<open>JSON.stringify\<close> of an array of strings, numbers and \<open>undefined\<close> (printed
  \<open>null\<close>). A string is quoted as ECMA-262 QuoteJSONString does: the two-character
  escapes, \<open>\uXXXX\<close> with lower-case digits for the other control characters and for a
  surrogate that has no partner, every other code unit as it is.
\<close>

datatype element = Str jstr | Num number | Undefined

definition hex_digit :: "bool \<Rightarrow> int \<Rightarrow> int" where
  "hex_digit upper d = (if d < 10 then 48 + d else (if upper then 55 else 87) + d)"

definition unicode_escape :: "int \<Rightarrow> jstr" where
  "unicode_escape c =
     [0x5C, ch CHR ''u''] @ [hex_digit False (c div 4096), hex_digit False (c div 256 mod 16),
                    hex_digit False (c div 16 mod 16), hex_digit False (c mod 16)]"

definition is_high_surrogate :: "int \<Rightarrow> bool" where
  "is_high_surrogate c = (0xD800 \<le> c \<and> c \<le> 0xDBFF)"

definition is_low_surrogate :: "int \<Rightarrow> bool" where
  "is_low_surrogate c = (0xDC00 \<le> c \<and> c \<le> 0xDFFF)"

definition quote_unit :: "int \<Rightarrow> jstr" where
  "quote_unit c =
     (if c = 8 then [0x5C, ch CHR ''b''] else if c = 9 then [0x5C, ch CHR ''t'']
      else if c = 10 then [0x5C, ch CHR ''n''] else if c = 12 then [0x5C, ch CHR ''f'']
      else if c = 13 then [0x5C, ch CHR ''r'']
      else if c = 0x22 then [0x5C, 0x22] else if c = 0x5C then [0x5C, 0x5C]
      else if c < 0x20 then unicode_escape c
      else [c])"

fun quote_units :: "jstr \<Rightarrow> jstr" where
  "quote_units [] = []"
| "quote_units [c] =
     (if is_high_surrogate c \<or> is_low_surrogate c then unicode_escape c else quote_unit c)"
| "quote_units (c # d # s) =
     (if is_high_surrogate c \<and> is_low_surrogate d then c # d # quote_units s
      else if is_high_surrogate c \<or> is_low_surrogate c then unicode_escape c @ quote_units (d # s)
      else quote_unit c @ quote_units (d # s))"

fun stringify_element :: "doubles \<Rightarrow> element \<Rightarrow> jstr" where
  "stringify_element dbl (Str s) = [0x22] @ quote_units s @ [0x22]"
| "stringify_element dbl (Num (Exact n)) = decimal (nat n)"
| "stringify_element dbl (Num (Approx d)) = lit (approx_json dbl d)"
| "stringify_element dbl Undefined = lit ''null''"

fun join :: "jstr \<Rightarrow> jstr list \<Rightarrow> jstr" where
  "join sep [] = []"
| "join sep [x] = x"
| "join sep (x # xs) = x @ sep @ join sep xs"

definition JSON_stringify :: "doubles \<Rightarrow> element list \<Rightarrow> jstr" where
  "JSON_stringify dbl xs =
     lit ''['' @ join (lit '','') (map (stringify_element dbl) xs) @ lit '']''"

text \<open>
  \<open>encodeURIComponent\<close> (ECMA-262 Encode): letters, digits and \<open>-_.!~*'()\<close> stay, every
  other code point is written as the \<open>%XX\<close> of its UTF-8 bytes, and a surrogate without
  its partner raises URIError (\<open>None\<close>).
\<close>

definition unreserved :: "int \<Rightarrow> bool" where
  "unreserved c =
     in_ranges c (alnum @ [only CHR ''-'', only CHR ''_'', only CHR ''.'', only CHR ''!'',
                           only CHR ''~'', only CHR ''*'', (0x27, 0x27), only CHR ''('',
                           only CHR '')''])"

definition percent :: "int \<Rightarrow> jstr" where
  "percent b = [ch CHR ''%'', hex_digit True (b div 16), hex_digit True (b mod 16)]"

definition utf8_percent :: "int \<Rightarrow> jstr" where
  "utf8_percent cp =
     (if cp < 0x80 then percent cp
      else if cp < 0x800 then percent (0xC0 + cp div 64) @ percent (0x80 + cp mod 64)
      else if cp < 0x10000 then
        percent (0xE0 + cp div 4096) @ percent (0x80 + cp div 64 mod 64)
          @ percent (0x80 + cp mod 64)
      else
        percent (0xF0 + cp div 262144) @ percent (0x80 + cp div 4096 mod 64)
          @ percent (0x80 + cp div 64 mod 64) @ percent (0x80 + cp mod 64))"

fun encodeURIComponent :: "jstr \<Rightarrow> jstr option" where
  "encodeURIComponent [] = Some []"
| "encodeURIComponent (c # s) =
     (if unreserved c then map_option ((#) c) (encodeURIComponent s)
      else if is_low_surrogate c then None
      else if is_high_surrogate c then
        (case s of
           [] \<Rightarrow> None
         | d # s' \<Rightarrow>
             if is_low_surrogate d then
               map_option ((@) (utf8_percent ((c - 0xD800) * 1024 + (d - 0xDC00) + 0x10000)))
                 (encodeURIComponent s')
             else None)
      else map_option ((@) (utf8_percent c)) (encodeURIComponent s))"

text \<open>
  \<open>`command:symfocus.openFile?${encodeURIComponent(JSON.stringify([...]))}`\<close>; \<open>None\<close>
  when \<open>encodeURIComponent\<close> throws.
\<close>

definition openFile_href :: "doubles \<Rightarrow> element list \<Rightarrow> jstr option" where
  "openFile_href dbl args =
     map_option ((@) (lit ''command:symfocus.openFile?''))
       (encodeURIComponent (JSON_stringify dbl args))"

subsection \<open>transformLinkHref\<close>

record LinkTransform =
  href :: jstr
  path :: "jstr option"
  line :: "number option"
  col :: "number option"
  endLine :: "number option"
  symbol :: "jstr option"

text \<open>\<open>/^(.+):(\d+)-(\d+)$/\<close>\<close>

definition RANGE_HREF :: re where
  "RANGE_HREF =
     seqs [Bol, Group 1 (plus (NCls line_terminator)), Lit (lit '':''), Group 2 (plus (Cls digit)),
           Lit (lit ''-''), Group 3 (plus (Cls digit)), Eol]"

text \<open>\<open>/^(.+):(\d+)(?::(\d+))?$/\<close>\<close>

definition LINE_HREF :: re where
  "LINE_HREF =
     seqs [Bol, Group 1 (plus (NCls line_terminator)), Lit (lit '':''), Group 2 (plus (Cls digit)),
           Opt (Seq (Lit (lit '':'')) (Group 3 (plus (Cls digit)))), Eol]"

text \<open>\<open>/([a-zA-Z0-9_./\\@+~-]+\.[a-zA-Z0-9]+):(\d+)(?:-(\d+))?(?::(\d+))?/\<close>\<close>

definition EMBEDDED_REF :: re where
  "EMBEDDED_REF =
     seqs [Group 1 (seqs [plus (Cls path_char), Lit (lit ''.''), plus (Cls alnum)]),
           Lit (lit '':''), Group 2 (plus (Cls digit)),
           Opt (Seq (Lit (lit ''-'')) (Group 3 (plus (Cls digit)))),
           Opt (Seq (Lit (lit '':'')) (Group 4 (plus (Cls digit))))]"

text \<open>\<open>/^([a-zA-Z0-9_./\\@+~-]+\.[a-zA-Z0-9]+)$/\<close>\<close>

definition BARE_FILE :: re where
  "BARE_FILE =
     seqs [Bol, Group 1 (seqs [plus (Cls path_char), Lit (lit ''.''), plus (Cls alnum)]), Eol]"

text \<open>
  \<open>/^(file|https?|mailto|tel|data|#)/i\<close>. With the \<open>i\<close> flag a letter of the pattern
  matches itself and its upper-case form.
\<close>

definition ci :: "string \<Rightarrow> re" where
  "ci w = seqs (map (\<lambda>c. Cls [(ch c, ch c), (ch c - 32, ch c - 32)]) w)"

definition KNOWN_SCHEME :: re where
  "KNOWN_SCHEME =
     Seq Bol (Group 1
       (Alt (ci ''file'') (Alt (Seq (ci ''http'') (Opt (ci ''s''))) (Alt (ci ''mailto'')
          (Alt (ci ''tel'') (Alt (ci ''data'') (Lit (lit ''#''))))))))"

text \<open>
  A file reference as \<open>transformLinkHref\<close> returns it: the array passed to
  \<open>JSON.stringify\<close> has the end line as its fourth element exactly when there is one.
\<close>

definition file_link ::
  "doubles \<Rightarrow> jstr \<Rightarrow> number \<Rightarrow> number \<Rightarrow> number option \<Rightarrow> LinkTransform option" where
  "file_link dbl p l c e =
     map_option
       (\<lambda>h. \<lparr>href = h, path = Some p, line = Some l, col = Some c, endLine = e, symbol = None\<rparr>)
       (openFile_href dbl ([Str p, Num l, Num c] @ (case e of None \<Rightarrow> [] | Some n \<Rightarrow> [Num n])))"

text \<open>The end of \<open>transformLinkHref\<close>: a symbol reference, or the target unchanged.\<close>

definition symbol_or_plain :: "jstr \<Rightarrow> LinkTransform" where
  "symbol_or_plain target =
     (if length target > 0 \<and> length target < 200 \<and> \<not> str_includes target (lit ''//'')
         \<and> \<not> re_test KNOWN_SCHEME target
      then \<lparr>href = lit ''#'', path = None, line = None, col = None, endLine = None,
             symbol = Some target\<rparr>
      else \<lparr>href = target, path = None, line = None, col = None, endLine = None,
             symbol = None\<rparr>)"

text \<open>\<open>transformLinkHref(href)\<close>; \<open>None\<close> when \<open>encodeURIComponent\<close> throws.\<close>

definition transformLinkHref :: "doubles \<Rightarrow> jstr \<Rightarrow> LinkTransform option" where
  "transformLinkHref dbl target =
     (if startsWith target (lit ''file:'') then
        file_link dbl (normalizePath (drop 5 target)) (Exact 1) (Exact 1) None
      else if \<not> str_includes target (lit ''//'') then
        (case re_match RANGE_HREF target of
           Some rangeMatch \<Rightarrow>
             file_link dbl (normalizePath (group rangeMatch 1)) (parseInt (group rangeMatch 2))
               (Exact 1) (Some (parseInt (group rangeMatch 3)))
         | None \<Rightarrow>
             (case re_match LINE_HREF target of
                Some m \<Rightarrow>
                  file_link dbl (normalizePath (group m 1)) (parseInt (group m 2))
                    (case group_opt m 3 of
                       None \<Rightarrow> Exact 1
                     | Some d \<Rightarrow> if d = [] then Exact 1 else parseInt d)
                    None
              | None \<Rightarrow>
                  (case re_match EMBEDDED_REF target of
                     Some embedded \<Rightarrow>
                       (case group_opt embedded 3 of
                          Some d \<Rightarrow>
                            file_link dbl (normalizePath (group embedded 1))
                              (parseInt (group embedded 2)) (Exact 1) (Some (parseInt d))
                        | None \<Rightarrow>
                            file_link dbl (normalizePath (group embedded 1))
                              (parseInt (group embedded 2))
                              (case group_opt embedded 4 of
                                 None \<Rightarrow> Exact 1
                               | Some d \<Rightarrow> parseInt d)
                              None)
                   | None \<Rightarrow>
                       (case re_match BARE_FILE target of
                          Some bareFile \<Rightarrow>
                            file_link dbl (normalizePath (group bareFile 1)) (Exact 1) (Exact 1) None
                        | None \<Rightarrow> Some (symbol_or_plain target)))))
      else Some (symbol_or_plain target))"

subsection \<open>The two linkify passes\<close>

text \<open>\<open>/```[\w]*\n[\s\S]*?```/g\<close> and \<open>/^```[\w]*\n/\<close>\<close>

definition FENCE :: re where
  "FENCE =
     seqs [Lit (lit ''```''), Star (Cls word), Lit [10], LazyStar (NCls []), Lit (lit ''```'')]"

definition FENCE_OPEN :: re where
  "FENCE_OPEN = seqs [Bol, Lit (lit ''```''), Star (Cls word), Lit [10]]"

text \<open>
  The \<open>while ((m = re.exec(md)) !== null)\<close> loop and the \<open>push\<close> after it: the text
  before each fenced block and the block, in turn, then the rest. A match of \<open>FENCE\<close>
  is never empty, so the test on the lengths always holds (\<open>split_fences_unfold\<close>
  below).
\<close>

function split_fences :: "int option \<Rightarrow> jstr \<Rightarrow> jstr list" where
  "split_fences p s =
     (case re_exec FENCE p s of
        None \<Rightarrow> [s]
      | Some f \<Rightarrow>
          if length (snd (after f)) < length s then
            skipped f # matched f # split_fences (fst (after f)) (snd (after f))
          else [s])"
  by pat_completeness auto
termination
  by (relation "measure (\<lambda>x. length (snd x))") auto

declare split_fences.simps [simp del]

text \<open>\<open>/`([^\s`]+\.\w+):(\d+)(?:-\d+)?(?::\d+)?`/g\<close>\<close>

definition BACKTICK_PATH_LINE :: re where
  "BACKTICK_PATH_LINE =
     seqs ([Lit (lit ''`''),
            Group 1 (seqs [plus (NCls (space @ [only CHR ''`''])), Lit (lit ''.''), plus (Cls word)]),
            Lit (lit '':''), Group 2 (plus (Cls digit))]
           @ range_col_tail @ [Lit (lit ''`'')])"

definition backtick_link :: "jstr \<Rightarrow> jstr" where
  "backtick_link full =
     (let content = butlast (tl full)
      in if str_includes content (lit ''://'') then full
         else lit ''['' @ content @ lit '']('' @ content @ lit '')'')"

definition linkifyBacktickPathLine :: "jstr \<Rightarrow> jstr" where
  "linkifyBacktickPathLine md =
     concat (map (\<lambda>segment.
                    if re_test FENCE_OPEN segment then segment
                    else replace_all BACKTICK_PATH_LINE backtick_link None segment)
                 (split_fences None md))"

text \<open>\<open>/(?<![\x5b\x60])([a-zA-Z0-9_./\\@+~-]+\.[a-zA-Z0-9]+:\d+(?:-\d+)?(?::\d+)?)/g\<close>\<close>

definition NAKED_PATH_LINE :: re where
  "NAKED_PATH_LINE =
     seqs [NotBehind [(0x5b, 0x5b), (0x60, 0x60)],
           Group 1 (seqs ([plus (Cls path_char), Lit (lit ''.''), plus (Cls alnum), Lit (lit '':''),
                           plus (Cls digit)] @ range_col_tail))]"

definition naked_link :: "jstr \<Rightarrow> jstr" where
  "naked_link full =
     (if str_includes full (lit ''://'') then full
      else lit ''['' @ full @ lit '']('' @ full @ lit '')'')"

text \<open>The loop over \<open>parts\<close>: the parts with an even index are rewritten.\<close>

fun map_even :: "(jstr \<Rightarrow> jstr) \<Rightarrow> jstr list \<Rightarrow> jstr list" where
  "map_even fn [] = []"
| "map_even fn [x] = [fn x]"
| "map_even fn (x # y # xs) = fn x # y # map_even fn xs"

definition linkifyNakedPathLine :: "jstr \<Rightarrow> jstr" where
  "linkifyNakedPathLine md =
     concat (map (\<lambda>segment.
                    if re_test FENCE_OPEN segment then segment
                    else join (lit ''`'')
                           (map_even (replace_all NAKED_PATH_LINE naked_link None)
                              (split_on (ch CHR ''`'') segment)))
                 (split_fences None md))"

subsection \<open>The link renderer\<close>

text \<open>\<open>/^\[[^\]]+\.\w+:\d+(?:-\d+)?(?::\d+)?\]$/\<close>\<close>

definition WRAPPED_REF :: re where
  "WRAPPED_REF =
     seqs ([Bol, Lit (lit ''[''), plus (NCls [only CHR '']'']), Lit (lit ''.''), plus (Cls word),
            Lit (lit '':''), plus (Cls digit)] @ range_col_tail @ [Lit (lit '']''), Eol])"

definition stripWrappedPathLineBrackets :: "jstr \<Rightarrow> jstr" where
  "stripWrappedPathLineBrackets t = (if re_test WRAPPED_REF t then butlast (tl t) else t)"

definition isAllowedFileLink ::
  "doubles \<Rightarrow> jstr \<Rightarrow> number option \<Rightarrow> number option \<Rightarrow> jstr set option \<Rightarrow> bool" where
  "isAllowedFileLink dbl pathValue l e allowed =
     (case allowed of
        None \<Rightarrow> True
      | Some links \<Rightarrow>
          (case l of
             None \<Rightarrow> False
           | Some n \<Rightarrow>
               if \<not> positive n then False
               else
                 (case e of
                    None \<Rightarrow> pathValue @ lit '':'' @ number_string dbl n \<in> links
                  | Some m \<Rightarrow>
                      if number_ge dbl m n then
                        pathValue @ lit '':'' @ number_string dbl n @ lit ''-''
                          @ number_string dbl m \<in> links
                      else pathValue @ lit '':'' @ number_string dbl n \<in> links)))"

text \<open>\<open>/:(\d+)(?:-(\d+))?(?::(\d+))?/\<close> and \<open>/:(\d+(?:-\d+)?(?::\d+)?)(?=$|[^\d:])/\<close>\<close>

definition TEXT_LINE :: re where
  "TEXT_LINE =
     seqs [Lit (lit '':''), Group 1 (plus (Cls digit)),
           Opt (Seq (Lit (lit ''-'')) (Group 2 (plus (Cls digit)))),
           Opt (Seq (Lit (lit '':'')) (Group 3 (plus (Cls digit))))]"

definition LINE_SUFFIX :: re where
  "LINE_SUFFIX =
     seqs [Lit (lit '':''), Group 1 (seqs (plus (Cls digit) # range_col_tail)),
           Ahead (Alt Eol (NCls (digit @ [only CHR '':''])))]"

text \<open>
  The first step of \<open>renderer.link\<close>: a file reference at line 1 takes its line, end
  line and column from the link text when the text has a \<open>:N\<close> in it.
\<close>

definition line_from_text :: "doubles \<Rightarrow> LinkTransform \<Rightarrow> jstr \<Rightarrow> LinkTransform option" where
  "line_from_text dbl t txt =
     (case path t of
        None \<Rightarrow> Some t
      | Some p \<Rightarrow>
          if line t = Some (Exact 1) then
            (case re_match TEXT_LINE txt of
               None \<Rightarrow> Some t
             | Some textMatch \<Rightarrow>
                 (let l = parseInt (group textMatch 1);
                      e = (case group_opt textMatch 2 of
                             None \<Rightarrow> None
                           | Some d \<Rightarrow> if d = [] then None else Some (parseInt d));
                      c = (case group_opt textMatch 3 of
                             None \<Rightarrow> Exact 1
                           | Some d \<Rightarrow> if d = [] then Exact 1 else parseInt d)
                  in map_option (\<lambda>h. t\<lparr>href := h, line := Some l, col := Some c, endLine := e\<rparr>)
                       (openFile_href dbl
                          [Str p, Num l, Num c, (case e of None \<Rightarrow> Undefined | Some n \<Rightarrow> Num n)])))
          else Some t)"

text \<open>The pieces of the anchor: \<open>tit\<close>, \<open>data\<close>, \<open>inner\<close>.\<close>

definition title_attr :: "jstr option \<Rightarrow> jstr" where
  "title_attr title =
     (case title of
        None \<Rightarrow> []
      | Some ti \<Rightarrow> if ti = [] then [] else lit '' title=\"'' @ escapeHtml ti @ lit ''\"'')"

definition data_attrs :: "doubles \<Rightarrow> LinkTransform \<Rightarrow> jstr" where
  "data_attrs dbl t =
     (case path t of
        None \<Rightarrow> []
      | Some p \<Rightarrow>
          lit '' data-dw-path=\"'' @ escapeHtml p
          @ lit ''\" data-dw-line=\"''
          @ number_string dbl (case line t of None \<Rightarrow> Exact 1 | Some l \<Rightarrow> l)
          @ lit ''\" data-dw-col=\"''
          @ number_string dbl (case col t of None \<Rightarrow> Exact 1 | Some c \<Rightarrow> c)
          @ lit ''\"''
          @ (case endLine t of
               None \<Rightarrow> []
             | Some e \<Rightarrow> lit '' data-dw-line-end=\"'' @ number_string dbl e @ lit ''\"''))"

definition display_text :: "jstr \<Rightarrow> jstr" where
  "display_text txt =
     (let displayText = stripWrappedPathLineBrackets txt
      in if displayText \<noteq> txt then escapeHtml displayText else txt)"

definition with_line_span :: "jstr \<Rightarrow> jstr" where
  "with_line_span inner =
     (case re_match LINE_SUFFIX inner of
        None \<Rightarrow> inner
      | Some lineMatch \<Rightarrow>
          take (length inner - length (matched lineMatch)) inner
          @ lit ''<span class=\"dw-line-number\">'' @ matched lineMatch @ lit ''</span>'')"

definition anchor :: "doubles \<Rightarrow> LinkTransform \<Rightarrow> jstr option \<Rightarrow> jstr \<Rightarrow> jstr" where
  "anchor dbl t title txt =
     (let inner =
            (if path t \<noteq> None \<and> (case line t of None \<Rightarrow> False | Some l \<Rightarrow> positive l)
             then with_line_span (display_text txt) else display_text txt);
          aHref = (case symbol t of None \<Rightarrow> href t | Some sy \<Rightarrow> lit ''#'')
      in lit ''<a href=\"'' @ escapeHtml aHref @ lit ''\"'' @ data_attrs dbl t
         @ (case symbol t of
              None \<Rightarrow> []
            | Some sy \<Rightarrow> lit '' data-dw-symbol=\"'' @ escapeHtml sy @ lit ''\"'')
         @ title_attr title @ lit ''>'' @ inner @ lit ''</a>'')"

text \<open>
  \<open>renderer.link\<close> as \<open>buildRenderer(allowedLinks)\<close> sets it: the markup of one link
  with target \<open>href\<close>, title \<open>title\<close> (\<open>None\<close> is null) and rendered link text
  \<open>text\<close>; \<open>None\<close> when \<open>encodeURIComponent\<close> throws.
\<close>

definition buildRenderer ::
  "doubles \<Rightarrow> jstr set option \<Rightarrow> jstr \<Rightarrow> jstr option \<Rightarrow> jstr \<Rightarrow> jstr option" where
  "buildRenderer dbl allowed target title txt =
     (case transformLinkHref dbl target of
        None \<Rightarrow> None
      | Some t0 \<Rightarrow>
          (case line_from_text dbl t0 txt of
             None \<Rightarrow> None
           | Some t \<Rightarrow>
               if (case path t of
                     None \<Rightarrow> False
                   | Some p \<Rightarrow> \<not> isAllowedFileLink dbl p (line t) (endLine t) allowed)
               then Some txt
               else Some (anchor dbl t title txt)))"

subsection \<open>renderMarkdown\<close>

record RenderMarkdownOptions =
  allowedLinks :: "jstr set option"

text \<open>
  \<open>marked.parse\<close> and \<open>DOMPurify.sanitize\<close> are third-party libraries; the model takes
  them as parameters. \<open>marked_parse\<close> gets the link renderer and the text and gives the
  markup, \<open>sanitize\<close> gets markup and gives markup; each gives \<open>None\<close> when it throws
  (\<open>marked.parse\<close> also when the renderer it calls throws).
\<close>

type_synonym link_renderer = "jstr \<Rightarrow> jstr option \<Rightarrow> jstr \<Rightarrow> jstr option"
type_synonym marked = "link_renderer \<Rightarrow> jstr \<Rightarrow> jstr option"
type_synonym purifier = "jstr \<Rightarrow> jstr option"

text \<open>The \<open>try\<close> block of \<open>renderMarkdown\<close>: the text handed to \<open>marked.parse\<close>, and the result of the block.\<close>

definition linkified :: "jstr \<Rightarrow> jstr" where
  "linkified md = linkifyNakedPathLine (linkifyBacktickPathLine md)"

definition render_attempt ::
  "doubles \<Rightarrow> marked \<Rightarrow> purifier \<Rightarrow> jstr \<Rightarrow> RenderMarkdownOptions option \<Rightarrow> jstr option" where
  "render_attempt dbl marked_parse sanitize md options =
     (case marked_parse (buildRenderer dbl (Option.bind options allowedLinks)) (linkified md) of
        None \<Rightarrow> None
      | Some html \<Rightarrow> sanitize html)"

text \<open>
  \<open>renderMarkdown(md, options)\<close>: \<open>Some\<close> is the string the promise resolves to,
  \<open>None\<close> would be a rejected promise.
\<close>

definition renderMarkdown ::
  "doubles \<Rightarrow> marked \<Rightarrow> purifier \<Rightarrow> jstr \<Rightarrow> RenderMarkdownOptions option \<Rightarrow> jstr option" where
  "renderMarkdown dbl marked_parse sanitize md options =
     (case render_attempt dbl marked_parse sanitize md options of
        Some html \<Rightarrow> Some html
      | None \<Rightarrow> Some (lit ''<p>'' @ escapeHtml md @ lit ''</p>''))"


section \<open>Auxiliary definitions for the proofs\<close>

text \<open>
  Two states of the read loop are equivalent when they agree on everything a later
  iteration reads: \<open>fallbackBuffer\<close> is only read while \<open>yieldCount\<close> is zero.
\<close>

definition state_eq :: "stream_state \<Rightarrow> stream_state \<Rightarrow> bool" where
  "state_eq s t =
     (decoder s = decoder t \<and> buffer s = buffer t \<and> yieldCount s = yieldCount t
      \<and> (if yieldCount s = 0 then fallbackBuffer s = fallbackBuffer t else True))"

fun result_eq ::
  "StreamResult list \<times> stream_state option \<Rightarrow> StreamResult list \<times> stream_state option \<Rightarrow> bool" where
  "result_eq (e1, None) (e2, None) = (e1 = e2)"
| "result_eq (e1, Some s) (e2, Some t) = (e1 = e2 \<and> state_eq s t)"
| "result_eq _ _ = False"

definition then_value ::
  "JSON_parse \<Rightarrow> StreamResult list \<times> stream_state option \<Rightarrow> 8 word list
     \<Rightarrow> StreamResult list \<times> stream_state option" where
  "then_value parse r v =
     (case r of
        (e1, None) \<Rightarrow> (e1, None)
      | (e1, Some s1) \<Rightarrow> (case on_value parse s1 v of (e2, r2) \<Rightarrow> (e1 @ e2, r2)))"

definition carry_ok :: "stream_state \<Rightarrow> bool" where
  "carry_ok s = (10 \<notin> set (buffer s))"

text \<open>Feeding a list of reads, one after the other.\<close>

fun feed ::
  "JSON_parse \<Rightarrow> stream_state \<Rightarrow> 8 word list list \<Rightarrow> StreamResult list \<times> stream_state option" where
  "feed parse s [] = ([], Some s)"
| "feed parse s (v # vs) =
     (case on_value parse s v of
        (e, None) \<Rightarrow> (e, None)
      | (e, Some s') \<Rightarrow> (case feed parse s' vs of (e', r) \<Rightarrow> (e @ e', r)))"

text \<open>
  The shape of an event sequence: \<open>Chunk\<close> events only, or \<open>Chunk\<close> events followed by
  exactly one \<open>Done\<close> or \<open>Error\<close> as the last event.
\<close>

fun chunks_then_terminal :: "StreamResult list \<Rightarrow> bool" where
  "chunks_then_terminal [] = False"
| "chunks_then_terminal [Chunk c] = False"
| "chunks_then_terminal [e] = True"
| "chunks_then_terminal (Chunk c # es) = chunks_then_terminal es"
| "chunks_then_terminal (e # es) = False"

fun only_chunks :: "StreamResult list \<Rightarrow> bool" where
  "only_chunks [] = True"
| "only_chunks (Chunk c # es) = only_chunks es"
| "only_chunks (e # es) = False"

text \<open>
  Fixtures for the examples: the bytes of an ASCII text, and a \<open>JSON.parse\<close> that knows
  three payloads (two streamed deltas and one non-streaming completion) and throws on
  every other text.
\<close>

definition ascii_bytes :: "string \<Rightarrow> 8 word list" where
  "ascii_bytes s = map of_char s"

definition completion ::"string \<Rightarrow> jstr \<Rightarrow> json" where
  "completion field c =
     JObject [(lit ''choices'', JArray [JObject [(lit field, JObject [(lit ''content'', JString c)])]])]"

definition example_parse :: JSON_parse where
  "example_parse s =
     (if s = lit ''{\"choices\":[{\"delta\":{\"content\":\"A\"}}]}'' then
        Some (completion ''delta'' (lit ''A''))
      else if s = lit ''{\"choices\":[{\"delta\":{\"content\":\"'' @ [233] @ lit ''\"}}]}'' then
        Some (completion ''delta'' [233])
      else if s = lit ''{\"choices\":[{\"message\":{\"content\":\"hi\"}}]}'' then
        Some (completion ''message'' (lit ''hi''))
      else None)"

definition example_response :: response where
  "example_response =
     \<lparr>ok = True, status = 200, statusText = lit ''OK'', json_result = Inl (OtherValue (Some [])),
      text_result = Inl (OtherValue (Some [])), body = None\<rparr>"

text \<open>A string in which every surrogate has its partner.\<close>

fun well_formed :: "jstr \<Rightarrow> bool" where
  "well_formed [] = True"
| "well_formed (c # s) =
     (if is_low_surrogate c then False
      else if is_high_surrogate c then
        (case s of [] \<Rightarrow> False | d # s' \<Rightarrow> is_low_surrogate d \<and> well_formed s')
      else well_formed s)"

text \<open>
  Escaping one code unit as the contract of the fallback words it: \<open>&\<close>, \<open><\<close>, \<open>>\<close> and
  the double quote are written as entities, every other code unit stays as it is.
\<close>

definition escape_unit :: "int \<Rightarrow> jstr" where
  "escape_unit c =
     (if c = ch CHR ''&'' then lit ''&amp;''
      else if c = ch CHR ''<'' then lit ''&lt;''
      else if c = ch CHR ''>'' then lit ''&gt;''
      else if c = ch CHR 0x22 then lit ''&quot;''
      else [c])"

text \<open>
  Fixtures for the examples of the renderer. No example has a number from \<open>2^53\<close> on, so
  the platform's treatment of those numbers is never consulted. The fixture for
  \<open>marked.parse\<close> knows two texts, a link and a link whose text holds a second link; it
  calls the renderer for each link from the inside out, with no title, wraps the result
  in a paragraph, and throws on every other text.
\<close>

definition example_doubles :: doubles where
  "example_doubles =
     \<lparr>approx_string = (\<lambda>d. ''Infinity''), approx_json = (\<lambda>d. ''null''),
      approx_ge = (\<lambda>d e. True)\<rparr>"

definition example_marked :: marked where
  "example_marked renderer_link s =
     (if s = lit ''[src/a.ts:10](src/a.ts:10)'' then
        Option.bind (renderer_link (lit ''src/a.ts:10'') None (lit ''src/a.ts:10''))
          (\<lambda>a. Some (lit ''<p>'' @ a @ lit ''</p>\<newline>''))
      else if s = lit ''[s[rc/a.ts:10-12](rc/a.ts:10-12)]([src/a.ts:10-12](src/a.ts:10-12))'' then
        Option.bind (renderer_link (lit ''rc/a.ts:10-12'') None (lit ''rc/a.ts:10-12''))
          (\<lambda>inner.
             Option.bind
               (renderer_link (lit ''[src/a.ts:10-12](src/a.ts:10-12)'') None (lit ''s'' @ inner))
               (\<lambda>outer. Some (lit ''<p>'' @ outer @ lit ''</p>\<newline>'')))
      else None)"

text \<open>
  The markup of the two links that the passes make of \<open>`src/a.ts:10-12`\<close>, as the
  renderer gives it when the allow-list holds \<open>src/a.ts:10-12\<close>: the inner link, and the
  outer link around it.
\<close>

definition example_inner_anchor :: jstr where
  "example_inner_anchor =
     lit ''<a href=\"command:symfocus.openFile?%5B%22src%2Fa.ts%22%2C10%2C1%2C12%5D\" data-dw-path=\"src/a.ts\" data-dw-line=\"10\" data-dw-col=\"1\" data-dw-line-end=\"12\">rc/a.ts<span class=\"dw-line-number\">:10-12</span></a>''"

definition example_outer_anchor :: jstr where
  "example_outer_anchor =
     lit ''<a href=\"command:symfocus.openFile?%5B%22src%2Fa.ts%22%2C10%2C1%2C12%5D\" data-dw-path=\"src/a.ts\" data-dw-line=\"10\" data-dw-col=\"1\" data-dw-line-end=\"12\">s<a href=\"command:symfocus.openFile?%5B%22src%2Fa.ts%22%2C10%2C1%2C12%5D\" data-dw-path=\"src/a.ts\" data-dw-line=\"10\" data-dw-col=\"1\" data-dw-line-end=\"12\">rc/a.ts<span class=\"dw-line-number\">:10-12</spa<span class=\"dw-line-number\">:10-12</span></a>''"


section \<open>Properties of the streaming client\<close>

subsection \<open>Reads may be split anywhere\<close>

lemma decode_append:
  "decode d (a @ b) =
     (case decode d a of (d1, o1) \<Rightarrow> (case decode d1 b of (d2, o2) \<Rightarrow> (d2, o1 @ o2)))"
  by (induction a arbitrary: d) (auto split: prod.splits)

lemma split_on_not_Nil: "split_on c s \<noteq> []"
  by (induction s) (auto split: list.splits)

lemma split_on_no_sep: "c \<notin> set s \<Longrightarrow> split_on c s = [s]"
  by (induction s) auto

lemma last_split_on_no_sep: "c \<notin> set (last (split_on c s))"
  by (induction s) (auto split: list.splits simp: split_on_not_Nil)

lemma split_on_append:
  "split_on c (a @ b) = butlast (split_on c a) @ split_on c (last (split_on c a) @ b)"
proof (induction a)
  case Nil
  then show ?case by simp
next
  case (Cons x a)
  show ?case
  proof (cases "x = c")
    case True
    then show ?thesis using Cons by (simp add: split_on_not_Nil)
  next
    case False
    obtain l ls where sp: "split_on c a = l # ls"
      using split_on_not_Nil[of c a] by (cases "split_on c a") auto
    obtain l' ls' where sp': "split_on c (a @ b) = l' # ls'"
      using split_on_not_Nil[of c "a @ b"] by (cases "split_on c (a @ b)") auto
    show ?thesis
    proof (cases ls)
      case Nil
      then show ?thesis using False sp sp' Cons by simp
    next
      case (Cons m ms)
      then show ?thesis using False sp sp' Cons.IH by simp
    qed
  qed
qed

lemma process_lines_append:
  "process_lines parse yc (xs @ ys) =
     (case process_lines parse yc xs of
        (e1, None) \<Rightarrow> (e1, None)
      | (e1, Some yc1) \<Rightarrow> (case process_lines parse yc1 ys of (e2, r) \<Rightarrow> (e1 @ e2, r)))"
  by (induction xs arbitrary: yc) (auto simp: Let_def split: prod.splits option.splits)

lemma process_lines_mono:
  "process_lines parse yc ls = (evs, Some yc') \<Longrightarrow> yc \<le> yc'"
proof (induction ls arbitrary: yc evs)
  case Nil
  then show ?case by simp
next
  case (Cons l ls)
  then show ?case
    by (fastforce simp: Let_def split: if_splits option.splits prod.splits dest: Suc_leD)
qed

lemma state_eq_refl: "state_eq s s"
  by (simp add: state_eq_def)

lemma state_eq_sym: "state_eq s t \<Longrightarrow> state_eq t s"
  by (auto simp: state_eq_def split: if_splits)

lemma state_eq_trans: "state_eq s t \<Longrightarrow> state_eq t u \<Longrightarrow> state_eq s u"
  by (auto simp: state_eq_def split: if_splits)

lemma result_eq_refl: "result_eq r r"
  by (cases r; cases "snd r") (auto simp: state_eq_refl)

lemma result_eq_sym: "result_eq a b \<Longrightarrow> result_eq b a"
  by (cases a; cases b; cases "snd a"; cases "snd b") (auto intro: state_eq_sym)

lemma result_eq_trans: "result_eq a b \<Longrightarrow> result_eq b c \<Longrightarrow> result_eq a c"
  by (cases a; cases b; cases c; cases "snd a"; cases "snd b"; cases "snd c")
     (auto intro: state_eq_trans)

lemma on_value_cong:
  assumes "state_eq s t"
  shows "result_eq (on_value parse s v) (on_value parse t v)"
proof -
  obtain d decoded where dec: "decode (decoder s) v = (d, decoded)"
    by (cases "decode (decoder s) v")
  obtain evs r where pl:
    "process_lines parse (yieldCount s) (butlast (split_on 10 (buffer s @ decoded))) = (evs, r)"
    by (cases "process_lines parse (yieldCount s) (butlast (split_on 10 (buffer s @ decoded)))")
  show ?thesis
  proof (cases r)
    case None
    then show ?thesis using assms dec pl by (simp add: on_value_def state_eq_def Let_def)
  next
    case (Some yc)
    have "yieldCount s \<le> yc" using pl Some process_lines_mono by blast
    then show ?thesis using assms dec pl Some
      by (auto simp: on_value_def state_eq_def Let_def split: if_splits)
  qed
qed

lemma on_done_cong: "state_eq s t \<Longrightarrow> on_done parse s = on_done parse t"
  by (auto simp: on_done_def state_eq_def split: if_splits)

lemma on_value_carry_ok: "on_value parse s v = (evs, Some s') \<Longrightarrow> carry_ok s'"
  by (auto simp: on_value_def carry_ok_def Let_def last_split_on_no_sep
           split: prod.splits option.splits)

lemma on_value_append:
  "result_eq (on_value parse s (a @ b)) (then_value parse (on_value parse s a) b)"
proof -
  obtain d1 o1 where d1: "decode (decoder s) a = (d1, o1)"
    by (cases "decode (decoder s) a")
  obtain d2 o2 where d2: "decode d1 b = (d2, o2)"
    by (cases "decode d1 b")
  have dab: "decode (decoder s) (a @ b) = (d2, o1 @ o2)"
    by (simp add: decode_append d1 d2)
  let ?L1 = "split_on 10 (buffer s @ o1)"
  let ?L2 = "split_on 10 (last ?L1 @ o2)"
  have sp: "split_on 10 (buffer s @ o1 @ o2) = butlast ?L1 @ ?L2"
    using split_on_append[of 10 "buffer s @ o1" o2] by simp
  have bl: "butlast (butlast ?L1 @ ?L2) = butlast ?L1 @ butlast ?L2"
    by (simp add: butlast_append split_on_not_Nil)
  have la: "last (butlast ?L1 @ ?L2) = last ?L2"
    by (simp add: split_on_not_Nil)
  obtain e1 r1 where p1: "process_lines parse (yieldCount s) (butlast ?L1) = (e1, r1)"
    by (cases "process_lines parse (yieldCount s) (butlast ?L1)")
  show ?thesis
  proof (cases r1)
    case None
    then show ?thesis
      using d1 dab sp bl p1
      by (simp add: on_value_def then_value_def Let_def process_lines_append)
  next
    case (Some yc1)
    have m1: "yieldCount s \<le> yc1" using p1 Some process_lines_mono by blast
    obtain e2 r2 where p2: "process_lines parse yc1 (butlast ?L2) = (e2, r2)"
      by (cases "process_lines parse yc1 (butlast ?L2)")
    show ?thesis
    proof (cases r2)
      case None
      then show ?thesis
        using d1 d2 dab sp bl p1 p2 Some
        by (simp add: on_value_def then_value_def Let_def process_lines_append)
    next
      case (Some yc2)
      have m2: "yc1 \<le> yc2" using p2 Some process_lines_mono by blast
      show ?thesis
        using d1 d2 dab sp bl la p1 p2 Some \<open>r1 = Some yc1\<close> m1 m2
        by (auto simp: on_value_def then_value_def Let_def process_lines_append state_eq_def)
    qed
  qed
qed

lemma then_value_cong:
  "result_eq r r' \<Longrightarrow> result_eq (then_value parse r v) (then_value parse r' v)"
proof (cases r; cases r'; cases "snd r"; cases "snd r'")
  fix e1 x e2 y s t
  assume h: "result_eq r r'" "r = (e1, x)" "r' = (e2, y)" "snd r = Some s" "snd r' = Some t"
  then have "state_eq s t" "e1 = e2" by auto
  then have "result_eq (on_value parse s v) (on_value parse t v)"
    using on_value_cong by blast
  then show "result_eq (then_value parse r v) (then_value parse r' v)"
    using h \<open>e1 = e2\<close>
    by (cases "on_value parse s v"; cases "on_value parse t v";
        cases "snd (on_value parse s v)"; cases "snd (on_value parse t v)")
       (auto simp: then_value_def)
qed (auto simp: then_value_def)

lemma feed_snoc:
  "feed parse s (vs @ [v]) = then_value parse (feed parse s vs) v"
  by (induction vs arbitrary: s)
     (auto simp: then_value_def split: prod.splits option.splits)

lemma on_value_empty:
  assumes "carry_ok s"
  shows "on_value parse s [] = ([], Some s)"
  using assms by (simp add: on_value_def carry_ok_def split_on_no_sep)

lemma feed_concat:
  assumes "carry_ok s"
  shows "result_eq (feed parse s vs) (on_value parse s (concat vs))"
proof (induction vs rule: rev_induct)
  case Nil
  then show ?case using assms by (simp add: on_value_empty state_eq_refl)
next
  case (snoc v vs)
  have "result_eq (then_value parse (feed parse s vs) v)
                  (then_value parse (on_value parse s (concat vs)) v)"
    using snoc then_value_cong by blast
  moreover have "result_eq (then_value parse (on_value parse s (concat vs)) v)
                           (on_value parse s (concat vs @ v))"
    using on_value_append result_eq_sym by blast
  ultimately show ?case
    by (simp add: feed_snoc) (meson result_eq_trans)
qed

lemma read_loop_values:
  "read_loop parse s (map Value vs @ rest) =
     (case feed parse s vs of
        (e, None) \<Rightarrow> (e, Returned)
      | (e, Some s') \<Rightarrow> (case read_loop parse s' rest of (e', out) \<Rightarrow> (e @ e', out)))"
  by (induction vs arbitrary: s) (auto split: prod.splits option.splits)

lemma carry_ok_initial: "carry_ok initial_state"
  by (simp add: carry_ok_def initial_state_def)

lemma read_loop_split:
  assumes "carry_ok s"
  shows "read_loop parse s (map Value ps @ [EndOfStream]) =
         read_loop parse s [Value (concat ps), EndOfStream]"
proof -
  have eq: "result_eq (feed parse s ps) (on_value parse s (concat ps))"
    using assms by (rule feed_concat)
  obtain e r where f: "feed parse s ps = (e, r)" by (cases "feed parse s ps")
  obtain e' r' where v: "on_value parse s (concat ps) = (e', r')"
    by (cases "on_value parse s (concat ps)")
  show ?thesis
  proof (cases r; cases r')
    fix a b assume "r = Some a" "r' = Some b"
    then show ?thesis
      using eq f v read_loop_values[of parse s ps "[EndOfStream]"] on_done_cong[of a b parse]
      by simp
  qed (use eq f v read_loop_values[of parse s ps "[EndOfStream]"] in auto)
qed

text \<open>
  C1. Chunk-split invariance: for every byte sequence and every way of cutting it into
  pieces (at any byte offset, also inside a line or inside a multi-byte character, and
  with empty pieces), a response whose body delivers the pieces one read at a time and
  then ends makes \<open>streamOpenAIChat\<close> yield exactly the events it yields when the body
  delivers the whole sequence in one read; in particular the same \<open>Chunk\<close> contents in
  the same order. It holds for every byte sequence, well-formed or not, and for every
  behaviour of \<open>JSON.parse\<close>.
\<close>

theorem chunk_split_invariance:
  "streamOpenAIChat parse num
     (FetchResolves (res\<lparr>ok := True, body := Some (map Value pieces @ [EndOfStream])\<rparr>)) =
   streamOpenAIChat parse num
     (FetchResolves (res\<lparr>ok := True, body := Some [Value (concat pieces), EndOfStream]\<rparr>))"
  by (simp add: streamOpenAIChat_def read_loop_split [OF carry_ok_initial])

subsection \<open>Every run ends with one terminal event\<close>

lemma chunks_then_terminal_Chunk:
  "chunks_then_terminal (Chunk c # es) = chunks_then_terminal es"
  by (cases es) auto

lemma only_chunks_append:
  "only_chunks (a @ b) = (only_chunks a \<and> only_chunks b)"
  by (induction a rule: only_chunks.induct) auto

lemma chunks_then_terminal_append:
  "only_chunks a \<Longrightarrow> chunks_then_terminal (a @ b) = chunks_then_terminal b"
proof (induction a rule: only_chunks.induct)
  case (2 c es)
  then show ?case by (simp add: chunks_then_terminal_Chunk)
qed auto

lemma process_lines_shape:
  "process_lines parse yc ls = (evs, r) \<Longrightarrow>
     (case r of None \<Rightarrow> chunks_then_terminal evs | Some yc' \<Rightarrow> only_chunks evs)"
proof (induction ls arbitrary: yc evs)
  case Nil
  then show ?case by auto
next
  case (Cons l ls)
  show ?case
    using Cons.prems Cons.IH
    by (auto simp: Let_def chunks_then_terminal_Chunk
             split: if_splits option.splits prod.splits)
qed

lemma on_value_shape:
  "on_value parse s v = (evs, r) \<Longrightarrow>
     (case r of None \<Rightarrow> chunks_then_terminal evs | Some s' \<Rightarrow> only_chunks evs)"
  by (auto simp: on_value_def Let_def split: prod.splits option.splits
           dest: process_lines_shape)

lemma on_done_shape: "chunks_then_terminal (on_done parse s)"
  by (auto simp: on_done_def Let_def split: option.splits)

lemma caught_shape:
  "caught prefix e = (evs, out) \<Longrightarrow>
     (case out of Returned \<Rightarrow> chunks_then_terminal evs | Pending \<Rightarrow> False | Threw \<Rightarrow> evs = [])"
  by (auto simp: caught_def catch_event_def split: option.splits)

lemma read_loop_shape:
  "read_loop parse s reads = (evs, out) \<Longrightarrow>
     (case out of Returned \<Rightarrow> chunks_then_terminal evs | Pending \<Rightarrow> only_chunks evs
      | Threw \<Rightarrow> only_chunks evs)"
proof (induction reads arbitrary: s evs)
  case Nil
  then show ?case by auto
next
  case (Cons r reads)
  show ?case
  proof (cases r)
    case (Value v)
    obtain e1 st where ov: "on_value parse s v = (e1, st)" by (cases "on_value parse s v")
    show ?thesis
    proof (cases st)
      case None
      then show ?thesis using Value ov on_value_shape[OF ov] Cons.prems by auto
    next
      case (Some s')
      then have oc: "only_chunks e1" using on_value_shape[OF ov] by simp
      obtain e2 where rl: "read_loop parse s' reads = (e2, out)" and ev: "evs = e1 @ e2"
        using Cons.prems Value ov Some by (auto split: prod.splits)
      show ?thesis using Cons.IH[OF rl] oc ev
        by (cases out) (auto simp: only_chunks_append chunks_then_terminal_append)
    qed
  next
    case EndOfStream
    then show ?thesis using Cons.prems by (auto simp: on_done_shape)
  next
    case (ReadThrows e)
    then show ?thesis using Cons.prems caught_shape[of "''Streaming error: ''" e evs out]
      by (cases out) auto
  qed
qed

text \<open>A body whose reads come to an end or to an error ends the generator.\<close>

lemma read_loop_returns:
  assumes "EndOfStream \<in> set reads \<or> (\<exists>e. ReadThrows e \<in> set reads)"
  shows "snd (read_loop parse s reads) \<noteq> Pending"
  using assms
proof (induction reads arbitrary: s)
  case Nil
  then show ?case by simp
next
  case (Cons r reads)
  show ?case
  proof (cases r)
    case (Value v)
    then have "EndOfStream \<in> set reads \<or> (\<exists>e. ReadThrows e \<in> set reads)"
      using Cons.prems by auto
    then have "\<And>s'. snd (read_loop parse s' reads) \<noteq> Pending"
      using Cons.IH by blast
    then show ?thesis using Value
      by (auto split: prod.splits option.splits) (metis snd_conv)+
  qed (simp_all add: caught_def split: option.splits)
qed

text \<open>
  The shape of the events on every path: a run that has returned (connection failure,
  non-success status, no body, terminal marker, natural end of the body, or a read that
  rejects) has yielded zero or more \<open>Chunk\<close> events followed by exactly one terminal
  event, \<open>Done\<close> or \<open>Error\<close>, which is the last event; a run that is still waiting on
  \<open>fetch\<close> or on a read, or that was left by an exception, has yielded \<open>Chunk\<close> events
  only.
\<close>

lemma event_shape:
  "(case streamOpenAIChat parse num fetched of
      (evs, Returned) \<Rightarrow> chunks_then_terminal evs
    | (evs, Pending) \<Rightarrow> only_chunks evs
    | (evs, Threw) \<Rightarrow> only_chunks evs)"
proof (cases fetched)
  case (FetchRejects e)
  obtain evs out where c: "caught ''Network error: '' e = (evs, out)"
    by (cases "caught ''Network error: '' e")
  show ?thesis
    using FetchRejects c caught_shape[OF c] by (cases out) (auto simp: streamOpenAIChat_def)
next
  case (FetchResolves res)
  show ?thesis
  proof (cases "ok res \<and> body res \<noteq> None")
    case True
    then obtain reads where b: "body res = Some reads" by auto
    obtain evs out where rl: "read_loop parse initial_state reads = (evs, out)"
      by (cases "read_loop parse initial_state reads")
    show ?thesis
      using True b rl FetchResolves read_loop_shape[OF rl]
      by (cases out) (auto simp: streamOpenAIChat_def)
  next
    case False
    then show ?thesis using FetchResolves
      by (auto simp: streamOpenAIChat_def split: option.splits)
  qed
qed (auto simp: streamOpenAIChat_def)

text \<open>
  The generator is left by an exception only where a conversion to a string throws: of
  the value that \<open>fetch\<close> or a read rejected with, or of the \<open>error.message\<close> of a
  response that is not \<open>ok\<close>.
\<close>

lemma read_loop_no_throw:
  "\<forall>e. ReadThrows e \<in> set reads \<longrightarrow> error_text e \<noteq> None \<Longrightarrow>
     snd (read_loop parse s reads) \<noteq> Threw"
proof (induction reads arbitrary: s)
  case Nil
  then show ?case by simp
next
  case (Cons r reads)
  show ?case
  proof (cases r)
    case (Value v)
    have "\<And>s'. snd (read_loop parse s' reads) \<noteq> Threw"
      using Cons.IH Cons.prems by simp
    then show ?thesis using Value
      by (auto split: prod.splits option.splits) (metis snd_conv)+
  next
    case EndOfStream
    then show ?thesis by simp
  next
    case (ReadThrows e)
    then have "error_text e \<noteq> None" using Cons.prems by simp
    then show ?thesis using ReadThrows
      by (auto simp: caught_def catch_event_def)
  qed
qed

lemma no_throw:
  assumes "\<And>e. fetched = FetchRejects e \<Longrightarrow> error_text e \<noteq> None"
      and "\<And>res. fetched = FetchResolves res \<Longrightarrow> \<not> ok res \<Longrightarrow> error_detail num res \<noteq> None"
      and "\<And>res reads e. fetched = FetchResolves res \<Longrightarrow> body res = Some reads \<Longrightarrow>
             ReadThrows e \<in> set reads \<Longrightarrow> error_text e \<noteq> None"
  shows "snd (streamOpenAIChat parse num fetched) \<noteq> Threw"
proof (cases fetched)
  case (FetchRejects e)
  then show ?thesis using assms(1)
    by (auto simp: streamOpenAIChat_def caught_def catch_event_def)
next
  case (FetchResolves res)
  show ?thesis
  proof (cases "ok res")
    case True
    show ?thesis
    proof (cases "body res")
      case None
      then show ?thesis using True FetchResolves by (simp add: streamOpenAIChat_def)
    next
      case (Some reads)
      then have "snd (read_loop parse initial_state reads) \<noteq> Threw"
        using assms(3)[OF FetchResolves Some] by (intro read_loop_no_throw) blast
      then show ?thesis using True Some FetchResolves by (simp add: streamOpenAIChat_def)
    qed
  next
    case False
    then show ?thesis using assms(2)[OF FetchResolves False] FetchResolves
      by (auto simp: streamOpenAIChat_def)
  qed
next
  case FetchPending
  then show ?thesis by (simp add: streamOpenAIChat_def)
qed

text \<open>
  C4 fails on the code. Terminal-event shape says that every run ends with exactly one
  terminal event on every exit path, the non-success status among them. For a response
  with status 500 whose body is \<open>{"error":{"message":{"toString":"x"}}}\<close>, the detail of
  the error event is the object \<open>{"toString":"x"}\<close>; the template literal that builds
  the message of the event converts it to a string, the conversion throws TypeError, and
  the template literal stands outside every \<open>try\<close> block: the generator is left by the
  exception and has yielded no event at all, neither \<open>Error\<close> nor \<open>Done\<close>.
\<close>

theorem unprintable_error_message_throws:
  "streamOpenAIChat parse num
     (FetchResolves
        \<lparr>ok = False, status = 500, statusText = lit ''Internal Server Error'',
         json_result =
           Inr (JObject [(lit ''error'',
                  JObject [(lit ''message'', JObject [(lit ''toString'', JString (lit ''x''))])])]),
         text_result = Inr (lit ''{\"error\":{\"message\":{\"toString\":\"x\"}}}''),
         body = Some []\<rparr>) =
   ([], Threw)"
  by (simp add: streamOpenAIChat_def error_detail_def lit_def)

subsection \<open>The fallback parse\<close>

lemma process_lines_count:
  "process_lines parse yc ls = (evs, Some yc') \<Longrightarrow> yc' = yc + length evs"
proof (induction ls arbitrary: yc evs)
  case Nil
  then show ?case by auto
next
  case (Cons l ls)
  show ?case
    using Cons.prems Cons.IH
    by (fastforce simp: Let_def split: if_splits option.splits prod.splits)
qed

lemma on_value_quiet:
  assumes "on_value parse s v = ([], Some s')" and "yieldCount s = 0"
  shows "yieldCount s' = 0 \<and> fallbackBuffer s' = fallbackBuffer s @ snd (decode (decoder s) v)"
  using assms
  by (auto simp: on_value_def Let_def split: prod.splits option.splits
           dest: process_lines_count)

lemma feed_quiet:
  assumes f: "feed parse s vs = ([], Some s')" and y: "yieldCount s = 0" and c: "carry_ok s"
  shows "yieldCount s' = 0 \<and>
         fallbackBuffer s' = fallbackBuffer s @ snd (decode (decoder s) (concat vs))"
proof -
  have eq: "result_eq (feed parse s vs) (on_value parse s (concat vs))"
    using c by (rule feed_concat)
  obtain e r where ov: "on_value parse s (concat vs) = (e, r)"
    by (cases "on_value parse s (concat vs)")
  from eq f ov obtain t where t: "r = Some t" "e = []" "state_eq s' t"
    by (cases r) auto
  have q: "yieldCount t = 0 \<and>
           fallbackBuffer t = fallbackBuffer s @ snd (decode (decoder s) (concat vs))"
    using on_value_quiet ov t y by blast
  then show ?thesis using t(3) by (auto simp: state_eq_def split: if_splits)
qed

lemma read_loop_quiet:
  assumes "read_loop parse s (map Value vs) = ([], Pending)"
  shows "\<exists>s'. feed parse s vs = ([], Some s')"
  using assms read_loop_values[of parse s vs "[]"]
  by (auto split: prod.splits option.splits)

text \<open>
  C3. Fallback parse: when the reads before the natural end of the body yielded no event
  (no \<open>Chunk\<close>, no terminal marker), and the text decoded from the whole body is a JSON
  object text (it starts with \<open>{\<close> after trimming and \<open>JSON.parse\<close> accepts it) whose
  \<open>choices[0].message.content\<close> is a string, then \<open>streamOpenAIChat\<close> yields exactly one
  \<open>Chunk\<close> with that string and then \<open>Done\<close>.
\<close>

theorem fallback_parse:
  assumes quiet: "read_loop parse initial_state (map Value vs) = ([], Pending)"
      and raw: "raw = snd (decode new_TextDecoder (concat vs))"
      and obj: "startsWith (trim raw) (lit ''{'')"
      and parsed: "parse raw = Some data"
      and content: "message_content data = Some c"
  shows "streamOpenAIChat parse num
           (FetchResolves (res\<lparr>ok := True, body := Some (map Value vs @ [EndOfStream])\<rparr>)) =
         ([Chunk c, Done], Returned)"
proof -
  obtain s' where f: "feed parse initial_state vs = ([], Some s')"
    using read_loop_quiet[OF quiet] by blast
  have "yieldCount s' = 0 \<and> fallbackBuffer s' = raw"
    using feed_quiet[OF f _ carry_ok_initial] raw by (simp add: initial_state_def)
  then have "on_done parse s' = [Chunk c, Done]"
    using obj parsed content by (simp add: on_done_def)
  then show ?thesis
    using f read_loop_values[of parse initial_state vs "[EndOfStream]"]
    by (simp add: streamOpenAIChat_def)
qed

theorem fallback_parse_witness:
  "read_loop example_parse initial_state
     (map Value [ascii_bytes ''{\"choices\":[{\"mess'',
                 ascii_bytes ''age\":{\"content\":\"hi\"}}]}'']) = ([], Pending)
   \<and> startsWith (trim (lit ''{\"choices\":[{\"message\":{\"content\":\"hi\"}}]}'')) (lit ''{'')
   \<and> example_parse (lit ''{\"choices\":[{\"message\":{\"content\":\"hi\"}}]}'') =
       Some (completion ''message'' (lit ''hi''))
   \<and> message_content (completion ''message'' (lit ''hi'')) = Some (lit ''hi'')
   \<and> streamOpenAIChat example_parse (\<lambda>v. [])
         (FetchResolves (example_response\<lparr>ok := True, body := Some
            (map Value [ascii_bytes ''{\"choices\":[{\"mess'',
                        ascii_bytes ''age\":{\"content\":\"hi\"}}]}''] @ [EndOfStream])\<rparr>)) =
       ([Chunk (lit ''hi''), Done], Returned)"
proof -
  let ?vs = "[ascii_bytes ''{\"choices\":[{\"mess'', ascii_bytes ''age\":{\"content\":\"hi\"}}]}'']"
  let ?raw = "lit ''{\"choices\":[{\"message\":{\"content\":\"hi\"}}]}''"
  have quiet: "read_loop example_parse initial_state (map Value ?vs) = ([], Pending)"
    by code_simp
  have raw: "?raw = snd (decode new_TextDecoder (concat ?vs))"
    by code_simp
  have obj: "startsWith (trim ?raw) (lit ''{'')"
    by code_simp
  have parsed: "example_parse ?raw = Some (completion ''message'' (lit ''hi''))"
    by code_simp
  have content: "message_content (completion ''message'' (lit ''hi'')) = Some (lit ''hi'')"
    by code_simp
  show ?thesis
    using fallback_parse [OF quiet raw obj parsed content, of "\<lambda>v. []" example_response]
      quiet obj parsed content
    by simp
qed

subsection \<open>A malformed frame is skipped\<close>

lemma split_on_line: "c \<notin> set l \<Longrightarrow> split_on c (l @ c # rest) = l # split_on c rest"
  by (induction l) auto

lemma process_lines_data_frame:
  assumes "trim l = lit ''data: '' @ p" and "p \<noteq> lit ''[DONE]''"
  shows "process_lines parse yc (l # ls) =
     (case parse p of
        None \<Rightarrow> process_lines parse yc ls
      | Some data \<Rightarrow>
          (case delta_content data of
             Some content \<Rightarrow>
               (case process_lines parse (yc + 1) ls of (evs, r) \<Rightarrow> (Chunk content # evs, r))
           | None \<Rightarrow> process_lines parse yc ls))"
proof -
  have "trim l \<noteq> []" "trim l \<noteq> lit '':''" "trim l \<noteq> lit ''[DONE]''"
    "trim l \<noteq> lit ''data: [DONE]''" "startsWith (trim l) (lit ''data: '')"
    "drop 6 (trim l) = p"
    using assms by (simp_all add: lit_def startsWith_def)
  then show ?thesis by (simp add: Let_def)
qed

text \<open>
  C5. Malformed-frame tolerance: let the body, cut into reads in any way, decode to three
  lines: a data frame whose payload parses and carries the content \<open>c1\<close>, a data frame
  whose payload \<open>JSON.parse\<close> rejects (and which is not the terminal marker), and a data
  frame with content \<open>c2\<close>. Then the events are \<open>Chunk c1\<close>, \<open>Chunk c2\<close> and, at the end
  of the body, \<open>Done\<close>: the malformed frame yields no event and does not end the stream.
\<close>

theorem malformed_frame_tolerance:
  assumes decoded: "snd (decode new_TextDecoder (concat pieces)) = l1 @ [10] @ lb @ [10] @ l2 @ [10]"
      and nl: "10 \<notin> set l1" "10 \<notin> set lb" "10 \<notin> set l2"
      and marker: "parse (lit ''[DONE]'') = None"
      and f1: "trim l1 = lit ''data: '' @ p1" "parse p1 = Some j1" "delta_content j1 = Some c1"
      and bad: "trim lb = lit ''data: '' @ pb" "parse pb = None" "pb \<noteq> lit ''[DONE]''"
      and f2: "trim l2 = lit ''data: '' @ p2" "parse p2 = Some j2" "delta_content j2 = Some c2"
  shows "streamOpenAIChat parse num
           (FetchResolves (res\<lparr>ok := True, body := Some (map Value pieces @ [EndOfStream])\<rparr>)) =
         ([Chunk c1, Chunk c2, Done], Returned)"
proof -
  obtain d where dec: "decode new_TextDecoder (concat pieces) = (d, l1 @ [10] @ lb @ [10] @ l2 @ [10])"
    using decoded by (cases "decode new_TextDecoder (concat pieces)") auto
  have sp: "split_on 10 (l1 @ [10] @ lb @ [10] @ l2 @ [10]) = [l1, lb, l2, []]"
    using nl by (simp add: split_on_line)
  have p1: "p1 \<noteq> lit ''[DONE]''" and p2: "p2 \<noteq> lit ''[DONE]''"
    using marker f1(2) f2(2) by auto
  have lines: "process_lines parse 0 [l1, lb, l2] = ([Chunk c1, Chunk c2], Some 2)"
    using f1(2,3) bad(2) f2(2,3)
    by (simp add: process_lines_data_frame[OF f1(1) p1] process_lines_data_frame[OF bad(1,3)]
          process_lines_data_frame[OF f2(1) p2] del: process_lines.simps(2))
  have ov: "on_value parse initial_state (concat pieces) =
              ([Chunk c1, Chunk c2],
               Some \<lparr>decoder = d, buffer = [], fallbackBuffer = l1 @ [10] @ lb @ [10] @ l2 @ [10],
                     yieldCount = 2\<rparr>)"
    using dec sp lines by (simp add: on_value_def initial_state_def)
  have "read_loop parse initial_state [Value (concat pieces), EndOfStream] =
          ([Chunk c1, Chunk c2, Done], Returned)"
    using ov by (simp add: on_done_def trim_def)
  then show ?thesis
    by (simp add: streamOpenAIChat_def read_loop_split [OF carry_ok_initial])
qed

theorem malformed_frame_tolerance_witness:
  "snd (decode new_TextDecoder (concat
      [ascii_bytes ''data: {\"choices\":[{\"delta\":{\"content\":\"A\"}}]}\<newline>data: {\"choi''
         @ ascii_bytes ''\<newline>data: {\"choices\":[{\"delta\":{\"content\":\"'' @ [0xC3],
       [0xA9] @ ascii_bytes ''\"}}]}\<newline>''])) =
     lit ''data: {\"choices\":[{\"delta\":{\"content\":\"A\"}}]}'' @ [10]
       @ lit ''data: {\"choi'' @ [10]
       @ (lit ''data: {\"choices\":[{\"delta\":{\"content\":\"'' @ [233] @ lit ''\"}}]}'') @ [10]
   \<and> example_parse (lit ''{\"choi'') = None
   \<and> streamOpenAIChat example_parse (\<lambda>v. [])
         (FetchResolves (example_response\<lparr>ok := True, body := Some
            (map Value
               [ascii_bytes ''data: {\"choices\":[{\"delta\":{\"content\":\"A\"}}]}\<newline>data: {\"choi''
                  @ ascii_bytes ''\<newline>data: {\"choices\":[{\"delta\":{\"content\":\"'' @ [0xC3],
                [0xA9] @ ascii_bytes ''\"}}]}\<newline>'']
             @ [EndOfStream])\<rparr>)) =
       ([Chunk (lit ''A''), Chunk [233], Done], Returned)"
proof -
  let ?pieces = "[ascii_bytes ''data: {\"choices\":[{\"delta\":{\"content\":\"A\"}}]}\<newline>data: {\"choi''
         @ ascii_bytes ''\<newline>data: {\"choices\":[{\"delta\":{\"content\":\"'' @ [0xC3],
       [0xA9] @ ascii_bytes ''\"}}]}\<newline>'']"
  let ?p1 = "lit ''{\"choices\":[{\"delta\":{\"content\":\"A\"}}]}''"
  let ?pb = "lit ''{\"choi''"
  let ?p2 = "lit ''{\"choices\":[{\"delta\":{\"content\":\"'' @ [233] @ lit ''\"}}]}''"
  let ?l1 = "lit ''data: '' @ ?p1"
  let ?lb = "lit ''data: '' @ ?pb"
  let ?l2 = "lit ''data: '' @ ?p2"
  have decoded: "snd (decode new_TextDecoder (concat ?pieces)) = ?l1 @ [10] @ ?lb @ [10] @ ?l2 @ [10]"
    by code_simp
  have nl: "10 \<notin> set ?l1" "10 \<notin> set ?lb" "10 \<notin> set ?l2"
    by code_simp+
  have marker: "example_parse (lit ''[DONE]'') = None"
    by code_simp
  have f1: "trim ?l1 = lit ''data: '' @ ?p1"
    "example_parse ?p1 = Some (completion ''delta'' (lit ''A''))"
    "delta_content (completion ''delta'' (lit ''A'')) = Some (lit ''A'')"
    by code_simp+
  have bad: "trim ?lb = lit ''data: '' @ ?pb" "example_parse ?pb = None" "?pb \<noteq> lit ''[DONE]''"
    by code_simp+
  have f2: "trim ?l2 = lit ''data: '' @ ?p2"
    "example_parse ?p2 = Some (completion ''delta'' [233])"
    "delta_content (completion ''delta'' [233]) = Some [233]"
    by code_simp+
  have main: "streamOpenAIChat example_parse (\<lambda>v. [])
         (FetchResolves (example_response\<lparr>ok := True, body := Some (map Value ?pieces @ [EndOfStream])\<rparr>)) =
       ([Chunk (lit ''A''), Chunk [233], Done], Returned)"
    by (rule malformed_frame_tolerance [OF decoded nl marker f1 bad f2])
  have d2: "snd (decode new_TextDecoder (concat ?pieces)) =
     lit ''data: {\"choices\":[{\"delta\":{\"content\":\"A\"}}]}'' @ [10]
       @ lit ''data: {\"choi'' @ [10]
       @ (lit ''data: {\"choices\":[{\"delta\":{\"content\":\"'' @ [233] @ lit ''\"}}]}'') @ [10]"
    by code_simp
  show ?thesis
    using main d2 bad(2) by blast
qed

section \<open>Properties of the renderer\<close>

subsection \<open>escapeHtml\<close>

lemma replace_unit_append:
  "replace_unit c by (a @ b) = replace_unit c by a @ replace_unit c by b"
  by (induction a) auto

lemma escapeHtml_append: "escapeHtml (a @ b) = escapeHtml a @ escapeHtml b"
  by (simp add: escapeHtml_def replace_unit_append)

lemma escapeHtml_unit: "escapeHtml [c] = escape_unit c"
  by (simp add: escapeHtml_def escape_unit_def lit_def ch_def)

text \<open>
  The four replacements of \<open>escapeHtml\<close>, one after the other, escape each code unit of
  the input on its own: the \<open>&\<close> of an entity written by a later replacement is not
  escaped again, because \<open>&\<close> is replaced first.
\<close>

lemma escapeHtml_units: "escapeHtml s = concat (map escape_unit s)"
proof (induction s)
  case Nil
  show ?case by (simp add: escapeHtml_def)
next
  case (Cons c s)
  have "escapeHtml (c # s) = escapeHtml [c] @ escapeHtml s"
    using escapeHtml_append[of "[c]" s] by simp
  then show ?case using Cons by (simp add: escapeHtml_unit)
qed

lemma escape_unit_no_markup:
  "ch CHR ''<'' \<notin> set (escape_unit c)" "ch CHR ''>'' \<notin> set (escape_unit c)"
  "ch CHR 0x22 \<notin> set (escape_unit c)"
  by (auto simp: escape_unit_def lit_def ch_def)

lemma escapeHtml_no_markup:
  "ch CHR ''<'' \<notin> set (escapeHtml s)" "ch CHR ''>'' \<notin> set (escapeHtml s)"
  "ch CHR 0x22 \<notin> set (escapeHtml s)"
  using escape_unit_no_markup by (auto simp: escapeHtml_units)

lemma escapeHtml_hash: "escapeHtml (lit ''#'') = lit ''#''"
  by code_simp

lemma escapeHtml_command:
  "escapeHtml (lit ''command:symfocus.openFile?'') = lit ''command:symfocus.openFile?''"
  by code_simp

subsection \<open>renderMarkdown always resolves\<close>

text \<open>
  C7. \<open>renderMarkdown\<close> never fails its caller: for every text, every options value and
  every behaviour of \<open>marked.parse\<close> and \<open>DOMPurify.sanitize\<close> (throwing included), the
  promise resolves to a string. When \<open>marked.parse\<close> (with the renderer built for the
  options, on the linkified text) and then \<open>DOMPurify.sanitize\<close> both return, the string
  is the sanitized markup. When either throws, the string is \<open><p>\<close>, then the input with
  each \<open>&\<close>, \<open><\<close>, \<open>>\<close> and double quote written as \<open>&amp;\<close>, \<open>&lt;\<close>, \<open>&gt;\<close>,
  \<open>&quot;\<close> and every other code unit kept in place, then \<open></p>\<close>; no \<open><\<close>, \<open>>\<close> or
  double quote of the input is left between the two tags.
\<close>

theorem renderMarkdown_never_fails:
  "renderMarkdown dbl marked_parse sanitize md options =
     Some (case Option.bind
                  (marked_parse (buildRenderer dbl (Option.bind options allowedLinks)) (linkified md))
                  sanitize of
             Some html \<Rightarrow> html
           | None \<Rightarrow> lit ''<p>'' @ concat (map escape_unit md) @ lit ''</p>'')
   \<and> ch CHR ''<'' \<notin> set (concat (map escape_unit md))
   \<and> ch CHR ''>'' \<notin> set (concat (map escape_unit md))
   \<and> ch CHR 0x22 \<notin> set (concat (map escape_unit md))"
proof -
  have "renderMarkdown dbl marked_parse sanitize md options =
     Some (case Option.bind
                  (marked_parse (buildRenderer dbl (Option.bind options allowedLinks)) (linkified md))
                  sanitize of
             Some html \<Rightarrow> html
           | None \<Rightarrow> lit ''<p>'' @ escapeHtml md @ lit ''</p>'')"
    by (simp add: renderMarkdown_def render_attempt_def split: option.split)
  then show ?thesis
    unfolding escapeHtml_units[symmetric] using escapeHtml_no_markup[of md] by simp
qed

text \<open>
  Two runs of the fallback: \<open>marked.parse\<close> throws, and \<open>DOMPurify.sanitize\<close> throws.
\<close>

lemma fallback_examples:
  "renderMarkdown example_doubles (\<lambda>renderer_link s. None) Some
     (lit ''a<b & \"c\" > &lt;'') None =
     Some (lit ''<p>a&lt;b &amp; &quot;c&quot; &gt; &amp;lt;</p>'')
   \<and> renderMarkdown example_doubles example_marked (\<lambda>html. None) (lit ''src/a.ts:10'')
       (Some \<lparr>allowedLinks = Some {}\<rparr>) =
     Some (lit ''<p>src/a.ts:10</p>'')"
  by code_simp

subsection \<open>Symbol links\<close>

lemma file_link_fields:
  "file_link dbl p l c e = Some t \<Longrightarrow>
     path t = Some p \<and> symbol t = None \<and> line t = Some l \<and> endLine t = e
     \<and> (\<exists>enc. href t = lit ''command:symfocus.openFile?'' @ enc)"
  by (auto simp: file_link_def openFile_href_def)

lemma transformLinkHref_cases:
  assumes "transformLinkHref dbl target = Some t"
  shows "(\<exists>p l c e. file_link dbl p l c e = Some t) \<or> t = symbol_or_plain target"
  using assms
  by (auto simp: transformLinkHref_def split: if_splits option.splits)

lemma symbol_or_plain_path: "path (symbol_or_plain target) = None"
  by (simp add: symbol_or_plain_def)

text \<open>
  When \<open>transformLinkHref\<close> gives a target a \<open>symbol\<close>, the symbol is the raw target, there
  is no path, and for every allow-list (absent, empty or not) the renderer gives the same
  anchor: \<open>href="#"\<close>, the escaped symbol in \<open>data-dw-symbol\<close>, the title if there is one,
  and the link text. The allow-list is not consulted.
\<close>

lemma symbol_link_rendering:
  assumes "transformLinkHref dbl target = Some t" and "symbol t = Some sy"
  shows "sy = target \<and> path t = None \<and> href t = lit ''#''
         \<and> buildRenderer dbl allowed target title txt =
             Some (lit ''<a href=\"#\" data-dw-symbol=\"'' @ escapeHtml target @ lit ''\"''
                   @ title_attr title @ lit ''>'' @ display_text txt @ lit ''</a>'')"
proof -
  have t: "t = symbol_or_plain target"
    using transformLinkHref_cases[OF assms(1)] assms(2) file_link_fields by fastforce
  then have f: "sy = target" "path t = None" "href t = lit ''#''" "symbol t = Some target"
    using assms(2) by (auto simp: symbol_or_plain_def split: if_splits)
  have l: "line_from_text dbl t txt = Some t"
    using f(2) by (simp add: line_from_text_def)
  have pre: "lit ''<a href=\"'' @ lit ''#'' @ lit ''\"'' @ lit '' data-dw-symbol=\"'' = lit ''<a href=\"#\" data-dw-symbol=\"''"
    by (simp add: lit_def)
  have "buildRenderer dbl allowed target title txt = Some (anchor dbl t title txt)"
    using assms(1) l f(2) by (simp add: buildRenderer_def)
  moreover have "anchor dbl t title txt =
      lit ''<a href=\"#\" data-dw-symbol=\"'' @ escapeHtml target @ lit ''\"''
                   @ title_attr title @ lit ''>'' @ display_text txt @ lit ''</a>''"
    using f pre by (simp add: anchor_def data_attrs_def escapeHtml_hash)
  ultimately show ?thesis using f by simp
qed

text \<open>
  Which targets get a \<open>symbol\<close>: those that are not empty, are shorter than 200 code
  units, have no \<open>//\<close>, do not start with \<open>file:\<close>, match none of the four file
  reference expressions, and do not start, in any letter case, with one of the words
  \<open>file\<close>, \<open>http\<close>, \<open>mailto\<close>, \<open>tel\<close>, \<open>data\<close> or with \<open>#\<close>.
\<close>

lemma symbol_classification:
  assumes "transformLinkHref dbl target = Some t"
  shows "(symbol t \<noteq> None) =
           (target \<noteq> [] \<and> length target < 200 \<and> \<not> str_includes target (lit ''//'')
            \<and> \<not> startsWith target (lit ''file:'')
            \<and> re_match RANGE_HREF target = None \<and> re_match LINE_HREF target = None
            \<and> re_match EMBEDDED_REF target = None \<and> re_match BARE_FILE target = None
            \<and> \<not> re_test KNOWN_SCHEME target)"
proof (cases "\<exists>p l c e. file_link dbl p l c e = Some t")
  case True
  then have "symbol t = None" using file_link_fields by blast
  moreover have "startsWith target (lit ''file:'') \<or> str_includes target (lit ''//'')
      \<or> re_match RANGE_HREF target \<noteq> None \<or> re_match LINE_HREF target \<noteq> None
      \<or> re_match EMBEDDED_REF target \<noteq> None \<or> re_match BARE_FILE target \<noteq> None"
    using assms True file_link_fields[of dbl _ _ _ _ t]
    by (auto simp: transformLinkHref_def symbol_or_plain_def split: if_splits option.splits)
  ultimately show ?thesis by auto
next
  case False
  then have t: "t = symbol_or_plain target"
    using transformLinkHref_cases[OF assms] by blast
  have nf: "\<And>p l c e. file_link dbl p l c e \<noteq> Some (symbol_or_plain target)"
    using False t by blast
  have "\<not> startsWith target (lit ''file:'')
      \<and> (str_includes target (lit ''//'')
         \<or> (re_match RANGE_HREF target = None \<and> re_match LINE_HREF target = None
            \<and> re_match EMBEDDED_REF target = None \<and> re_match BARE_FILE target = None))"
    using assms t nf
    by (auto simp: transformLinkHref_def split: if_splits option.splits)
  then show ?thesis using t
    by (auto simp: symbol_or_plain_def)
qed

lemma symbol_examples:
  "buildRenderer dbl (Some {}) (lit ''MyClass'') None (lit ''MyClass'') =
     Some (lit ''<a href=\"#\" data-dw-symbol=\"MyClass\">MyClass</a>'')
   \<and> buildRenderer dbl None (lit ''parse<T>'') (Some (lit ''a \"b\"'')) (lit ''parse'') =
     Some (lit ''<a href=\"#\" data-dw-symbol=\"parse&lt;T&gt;\" title=\"a &quot;b&quot;\">parse</a>'')"
  by code_simp

text \<open>
  C8 fails on the code. Symbol-only links: a link whose target is short, has no scheme
  and resolves to no file path is to be rendered as the placeholder anchor (\<open>href="#"\<close>)
  that carries the target in \<open>data-dw-symbol\<close>, for every allow-list. The test that keeps
  targets with a scheme from being symbols is \<open>/^(file|https?|mailto|tel|data|#)/i\<close>, which
  has no colon after the scheme names and ignores case: it also refuses every identifier
  that begins with one of these words. \<open>FileReader\<close>, \<open>dataStore\<close> and \<open>telemetry\<close> are
  short, have no scheme and no file path, and for every allow-list, title and link text
  the renderer gives an ordinary anchor that navigates to the target, with no
  \<open>data-dw-symbol\<close>.
\<close>

theorem scheme_word_targets_not_symbols:
  "transformLinkHref dbl (lit ''FileReader'') =
     Some \<lparr>href = lit ''FileReader'', path = None, line = None, col = None, endLine = None,
           symbol = None\<rparr>
   \<and> buildRenderer dbl allowed (lit ''FileReader'') title txt =
       Some (lit ''<a href=\"FileReader\"'' @ title_attr title @ lit ''>'' @ display_text txt
             @ lit ''</a>'')
   \<and> buildRenderer dbl allowed (lit ''dataStore'') title txt =
       Some (lit ''<a href=\"dataStore\"'' @ title_attr title @ lit ''>'' @ display_text txt
             @ lit ''</a>'')
   \<and> buildRenderer dbl allowed (lit ''telemetry'') title txt =
       Some (lit ''<a href=\"telemetry\"'' @ title_attr title @ lit ''>'' @ display_text txt
             @ lit ''</a>'')"
proof -
  have plain: "\<And>target. transformLinkHref dbl target =
        Some \<lparr>href = target, path = None, line = None, col = None, endLine = None,
              symbol = None\<rparr> \<Longrightarrow>
      buildRenderer dbl allowed target title txt =
        Some (lit ''<a href=\"'' @ escapeHtml target @ lit ''\"'' @ title_attr title @ lit ''>''
              @ display_text txt @ lit ''</a>'')"
    by (simp add: buildRenderer_def line_from_text_def anchor_def data_attrs_def)
  have t1: "transformLinkHref dbl (lit ''FileReader'') =
     Some \<lparr>href = lit ''FileReader'', path = None, line = None, col = None, endLine = None,
           symbol = None\<rparr>"
    by code_simp
  have t2: "transformLinkHref dbl (lit ''dataStore'') =
     Some \<lparr>href = lit ''dataStore'', path = None, line = None, col = None, endLine = None,
           symbol = None\<rparr>"
    by code_simp
  have t3: "transformLinkHref dbl (lit ''telemetry'') =
     Some \<lparr>href = lit ''telemetry'', path = None, line = None, col = None, endLine = None,
           symbol = None\<rparr>"
    by code_simp
  have e1: "lit ''<a href=\"'' @ escapeHtml (lit ''FileReader'') @ lit ''\"'' = lit ''<a href=\"FileReader\"''"
    by code_simp
  have e2: "lit ''<a href=\"'' @ escapeHtml (lit ''dataStore'') @ lit ''\"'' = lit ''<a href=\"dataStore\"''"
    by code_simp
  have e3: "lit ''<a href=\"'' @ escapeHtml (lit ''telemetry'') @ lit ''\"'' = lit ''<a href=\"telemetry\"''"
    by code_simp
  have r1: "buildRenderer dbl allowed (lit ''FileReader'') title txt =
       Some (lit ''<a href=\"FileReader\"'' @ title_attr title @ lit ''>'' @ display_text txt
             @ lit ''</a>'')"
    using plain[OF t1] e1 by (metis append.assoc)
  have r2: "buildRenderer dbl allowed (lit ''dataStore'') title txt =
       Some (lit ''<a href=\"dataStore\"'' @ title_attr title @ lit ''>'' @ display_text txt
             @ lit ''</a>'')"
    using plain[OF t2] e2 by (metis append.assoc)
  have r3: "buildRenderer dbl allowed (lit ''telemetry'') title txt =
       Some (lit ''<a href=\"telemetry\"'' @ title_attr title @ lit ''>'' @ display_text txt
             @ lit ''</a>'')"
    using plain[OF t3] e3 by (metis append.assoc)
  show ?thesis using t1 r1 r2 r3 by blast
qed

subsection \<open>The open-file href never throws\<close>

lemma well_formed_append: "well_formed a \<Longrightarrow> well_formed b \<Longrightarrow> well_formed (a @ b)"
  by (induction a rule: well_formed.induct) (auto split: if_splits list.splits)

lemma well_formed_plain:
  "\<forall>c\<in>set s. c < 0xD800 \<Longrightarrow> well_formed s"
  by (induction s) (auto simp: is_low_surrogate_def is_high_surrogate_def)

lemma encodeURIComponent_total: "well_formed s \<Longrightarrow> encodeURIComponent s \<noteq> None"
proof (induction s rule: encodeURIComponent.induct)
  case 1
  then show ?case by simp
next
  case (2 c s)
  show ?case
  proof (cases "unreserved c")
    case True
    have "c < 0xD800"
      using True by (auto simp: unreserved_def alnum_def only_def ch_def)
    then have "well_formed s"
      using "2.prems" by (simp add: is_low_surrogate_def is_high_surrogate_def)
    then show ?thesis using True "2.IH"(1) by simp
  next
    case False
    then show ?thesis using "2.prems" "2.IH"(2,3)
      by (auto split: if_splits list.splits)
  qed
qed

lemma hex_digit_small: "d < 16 \<Longrightarrow> hex_digit u d < 0xD800"
  by (simp add: hex_digit_def)

lemma well_formed_unicode_escape: "c \<le> 0xDFFF \<Longrightarrow> well_formed (unicode_escape c)"
proof -
  assume c: "c \<le> 0xDFFF"
  have "c div 4096 < 16" using c by simp
  then show ?thesis
    by (intro well_formed_plain) (auto simp: unicode_escape_def ch_def hex_digit_small)
qed

lemma well_formed_quote_unit:
  "\<not> is_high_surrogate c \<Longrightarrow> \<not> is_low_surrogate c \<Longrightarrow> well_formed (quote_unit c)"
  by (auto simp: quote_unit_def ch_def is_high_surrogate_def is_low_surrogate_def
        well_formed_unicode_escape)

lemma well_formed_quote_units: "well_formed (quote_units s)"
proof (induction s rule: quote_units.induct)
  case 1
  then show ?case by simp
next
  case (2 c)
  then show ?case
    by (auto simp: well_formed_quote_unit well_formed_unicode_escape
          is_high_surrogate_def is_low_surrogate_def)
next
  case (3 c d s)
  show ?case
  proof (cases "is_high_surrogate c \<and> is_low_surrogate d")
    case True
    then have "\<not> is_low_surrogate c"
      by (auto simp: is_high_surrogate_def is_low_surrogate_def)
    then show ?thesis using True 3 by simp
  next
    case False
    show ?thesis
    proof (cases "is_high_surrogate c \<or> is_low_surrogate c")
      case True
      then have "c \<le> 0xDFFF" by (auto simp: is_high_surrogate_def is_low_surrogate_def)
      then show ?thesis using False True 3
        by (auto intro!: well_formed_append well_formed_unicode_escape)
    next
      case no: False
      then show ?thesis using False 3
        by (auto intro!: well_formed_append well_formed_quote_unit)
    qed
  qed
qed

lemma decimal_digits: "c \<in> set (decimal n) \<Longrightarrow> 48 \<le> c \<and> c \<le> 57"
proof (induction n arbitrary: c rule: decimal.induct)
  case (1 n)
  show ?case
  proof (cases "n < 10")
    case True
    then show ?thesis using "1.prems" by (subst (asm) decimal.simps) auto
  next
    case False
    have "n mod 10 < 10" by simp
    then show ?thesis using False "1.prems" "1.IH"
      by (subst (asm) decimal.simps) auto
  qed
qed

lemma well_formed_decimal: "well_formed (decimal n)"
  by (rule well_formed_plain) (use decimal_digits in fastforce)

lemma lit_small: "c \<in> set (lit s) \<Longrightarrow> c < 256"
proof -
  assume "c \<in> set (lit s)"
  then obtain x :: char where c: "c = of_char x" by (auto simp: lit_def)
  have "(of_char x :: int) < 256"
    using pos_mod_bound[of 256 "of_char x :: int"] by simp
  then show ?thesis using c by simp
qed

lemma well_formed_lit: "well_formed (lit s)"
  by (rule well_formed_plain) (use lit_small in fastforce)

lemma well_formed_dquote: "well_formed [0x22]"
  by (simp add: is_low_surrogate_def is_high_surrogate_def)

lemma well_formed_element: "well_formed (stringify_element dbl e)"
proof (cases e)
  case (Str x)
  have "well_formed ([0x22] @ quote_units x @ [0x22])"
    by (intro well_formed_append well_formed_quote_units well_formed_dquote)
  then show ?thesis using Str by (simp only: stringify_element.simps)
next
  case (Num n)
  then show ?thesis by (cases n) (simp_all add: well_formed_decimal well_formed_lit)
next
  case Undefined
  then show ?thesis by (simp add: well_formed_lit)
qed

lemma well_formed_join:
  "(\<And>x. x \<in> set xs \<Longrightarrow> well_formed x) \<Longrightarrow> well_formed sep \<Longrightarrow> well_formed (join sep xs)"
  by (induction sep xs rule: join.induct) (auto intro!: well_formed_append)

lemma well_formed_JSON_stringify: "well_formed (JSON_stringify dbl xs)"
  unfolding JSON_stringify_def
  by (intro well_formed_append well_formed_join)
     (auto simp: well_formed_element well_formed_lit)

lemma openFile_href_total:
  "\<exists>enc. encodeURIComponent (JSON_stringify dbl args) = Some enc
         \<and> openFile_href dbl args = Some (lit ''command:symfocus.openFile?'' @ enc)"
  using encodeURIComponent_total[OF well_formed_JSON_stringify, of dbl args]
  by (auto simp: openFile_href_def)

lemma line_from_text_fields:
  assumes "path t = Some p" and "\<exists>enc. href t = lit ''command:symfocus.openFile?'' @ enc"
  shows "\<exists>t'. line_from_text dbl t txt = Some t' \<and> path t' = Some p \<and> symbol t' = symbol t
              \<and> (\<exists>enc. href t' = lit ''command:symfocus.openFile?'' @ enc)"
proof (cases "line t = Some (Exact 1) \<and> re_match TEXT_LINE txt \<noteq> None")
  case True
  then obtain tm where tm: "re_match TEXT_LINE txt = Some tm" by auto
  let ?l = "parseInt (group tm 1)"
  let ?e = "(case group_opt tm 2 of None \<Rightarrow> None
             | Some d \<Rightarrow> if d = [] then None else Some (parseInt d))"
  let ?c = "(case group_opt tm 3 of None \<Rightarrow> Exact 1
             | Some d \<Rightarrow> if d = [] then Exact 1 else parseInt d)"
  obtain enc where "openFile_href dbl
      [Str p, Num ?l, Num ?c, (case ?e of None \<Rightarrow> Undefined | Some n \<Rightarrow> Num n)] =
      Some (lit ''command:symfocus.openFile?'' @ enc)"
    using openFile_href_total by blast
  then show ?thesis using True tm assms(1)
    by (simp add: line_from_text_def Let_def)
next
  case False
  then show ?thesis using assms
    by (auto simp: line_from_text_def split: option.splits)
qed

text \<open>
  The renderer on a target that \<open>transformLinkHref\<close> resolves to a file path: it never
  throws, and it gives an anchor whose href is an open-file command when there is no
  allow-list, and the link text alone when the allow-list is empty.
\<close>

lemma isAllowedFileLink_None: "isAllowedFileLink dbl q l e None"
  by (simp add: isAllowedFileLink_def)

lemma isAllowedFileLink_empty: "\<not> isAllowedFileLink dbl q l e (Some {})"
  by (auto simp: isAllowedFileLink_def split: option.splits)

lemma file_target_rendering:
  assumes "transformLinkHref dbl target = Some t" and "path t = Some p"
  shows "(\<exists>rest. buildRenderer dbl None target title txt =
                   Some (lit ''<a href=\"command:symfocus.openFile?'' @ rest))
         \<and> buildRenderer dbl (Some {}) target title txt = Some txt"
proof -
  have "\<exists>pp ll cc ee. file_link dbl pp ll cc ee = Some t"
    using transformLinkHref_cases[OF assms(1)] assms(2) symbol_or_plain_path by fastforce
  then have h: "\<exists>enc. href t = lit ''command:symfocus.openFile?'' @ enc" and sy: "symbol t = None"
    using file_link_fields by blast+
  obtain t' enc where t': "line_from_text dbl t txt = Some t'" "path t' = Some p" "symbol t' = None"
      "href t' = lit ''command:symfocus.openFile?'' @ enc"
    using line_from_text_fields[OF assms(2) h, of dbl "txt"] sy by auto
  have pre: "lit ''<a href=\"command:symfocus.openFile?'' = lit ''<a href=\"'' @ lit ''command:symfocus.openFile?''"
    by (simp add: lit_def)
  have "buildRenderer dbl None target title txt = Some (anchor dbl t' title txt)"
    using assms(1) t' by (simp add: buildRenderer_def isAllowedFileLink_None)
  moreover have "\<exists>rest. anchor dbl t' title txt = lit ''<a href=\"command:symfocus.openFile?'' @ rest"
    using t' pre by (simp add: anchor_def Let_def escapeHtml_append escapeHtml_command)
  moreover have "buildRenderer dbl (Some {}) target title txt = Some txt"
    using assms(1) t' by (simp add: buildRenderer_def isAllowedFileLink_empty)
  ultimately show ?thesis by auto
qed

lemma renderMarkdown_unfold:
  "renderMarkdown dbl marked_parse sanitize md options =
     Some (case Option.bind
                  (marked_parse (buildRenderer dbl (Option.bind options allowedLinks)) (linkified md))
                  sanitize of
             Some html \<Rightarrow> html
           | None \<Rightarrow> lit ''<p>'' @ escapeHtml md @ lit ''</p>'')"
  by (simp add: renderMarkdown_def render_attempt_def split: option.split)

subsection \<open>No allow-list and the empty allow-list\<close>

text \<open>
  C9. When \<open>renderMarkdown\<close> is called with no allow-list (\<open>options\<close> absent, or
  \<open>allowedLinks\<close> undefined), the markup it returns is the sanitized markup that
  \<open>marked.parse\<close> makes of the linkified text with the renderer built for no allow-list
  (the fallback when one of the two throws). For that renderer \<open>isAllowedFileLink\<close> is
  true for every path, line and end line, and every target that \<open>transformLinkHref\<close>
  resolves to a file path is rendered as an anchor whose href is an open-file command.
  When it is called with the empty allow-list, the renderer is the one built for the
  empty set: \<open>isAllowedFileLink\<close> is false for every path, line and end line, and the same
  link is rendered as its text alone.
\<close>

theorem no_allow_list_allows_all:
  assumes "options = None \<or> options = Some \<lparr>allowedLinks = None\<rparr>"
      and "transformLinkHref dbl target = Some t" and "path t = Some p"
  shows "renderMarkdown dbl marked_parse sanitize md options =
           Some (case Option.bind (marked_parse (buildRenderer dbl None) (linkified md)) sanitize of
                   Some html \<Rightarrow> html
                 | None \<Rightarrow> lit ''<p>'' @ escapeHtml md @ lit ''</p>'')
         \<and> isAllowedFileLink dbl q l e None
         \<and> (\<exists>rest. buildRenderer dbl None target title txt =
                      Some (lit ''<a href=\"command:symfocus.openFile?'' @ rest))
         \<and> renderMarkdown dbl marked_parse sanitize md (Some \<lparr>allowedLinks = Some {}\<rparr>) =
             Some (case Option.bind (marked_parse (buildRenderer dbl (Some {})) (linkified md))
                          sanitize of
                     Some html \<Rightarrow> html
                   | None \<Rightarrow> lit ''<p>'' @ escapeHtml md @ lit ''</p>'')
         \<and> \<not> isAllowedFileLink dbl q l e (Some {})
         \<and> buildRenderer dbl (Some {}) target title txt = Some txt"
proof -
  have none: "Option.bind options allowedLinks = None"
    using assms(1) by auto
  have r1: "renderMarkdown dbl marked_parse sanitize md options =
           Some (case Option.bind (marked_parse (buildRenderer dbl None) (linkified md)) sanitize of
                   Some html \<Rightarrow> html
                 | None \<Rightarrow> lit ''<p>'' @ escapeHtml md @ lit ''</p>'')"
    using renderMarkdown_unfold[of dbl marked_parse sanitize md options] none by simp
  have r2: "renderMarkdown dbl marked_parse sanitize md (Some \<lparr>allowedLinks = Some {}\<rparr>) =
             Some (case Option.bind (marked_parse (buildRenderer dbl (Some {})) (linkified md))
                          sanitize of
                     Some html \<Rightarrow> html
                   | None \<Rightarrow> lit ''<p>'' @ escapeHtml md @ lit ''</p>'')"
    using renderMarkdown_unfold[of dbl marked_parse sanitize md "Some \<lparr>allowedLinks = Some {}\<rparr>"]
    by simp
  show ?thesis
    using r1 r2 file_target_rendering[OF assms(2,3), of title "txt"]
      isAllowedFileLink_None[of dbl q l e] isAllowedFileLink_empty[of dbl q l e]
    by blast
qed

theorem no_allow_list_allows_all_witness:
  "transformLinkHref example_doubles (lit ''src/a.ts:10'') =
     Some \<lparr>href = lit ''command:symfocus.openFile?%5B%22src%2Fa.ts%22%2C10%2C1%5D'',
           path = Some (lit ''src/a.ts''), line = Some (Exact 10), col = Some (Exact 1),
           endLine = None, symbol = None\<rparr>
   \<and> renderMarkdown example_doubles example_marked Some (lit ''src/a.ts:10'') None =
       Some (lit ''<p><a href=\"command:symfocus.openFile?%5B%22src%2Fa.ts%22%2C10%2C1%5D\" data-dw-path=\"src/a.ts\" data-dw-line=\"10\" data-dw-col=\"1\">src/a.ts<span class=\"dw-line-number\">:10</span></a></p>\<newline>'')
   \<and> isAllowedFileLink example_doubles (lit ''src/a.ts'') (Some (Exact 10)) None None
   \<and> renderMarkdown example_doubles example_marked Some (lit ''src/a.ts:10'')
         (Some \<lparr>allowedLinks = Some {}\<rparr>) =
       Some (lit ''<p>src/a.ts:10</p>\<newline>'')
   \<and> \<not> isAllowedFileLink example_doubles (lit ''src/a.ts'') (Some (Exact 10)) None (Some {})
   \<and> buildRenderer example_doubles (Some {}) (lit ''src/a.ts:10'') None (lit ''src/a.ts:10'') =
       Some (lit ''src/a.ts:10'')"
proof -
  let ?t = "\<lparr>href = lit ''command:symfocus.openFile?%5B%22src%2Fa.ts%22%2C10%2C1%5D'',
             path = Some (lit ''src/a.ts''), line = Some (Exact 10), col = Some (Exact 1),
             endLine = None, symbol = None\<rparr>"
  have o: "(None :: RenderMarkdownOptions option) = None \<or> None = Some \<lparr>allowedLinks = None\<rparr>"
    by simp
  have t: "transformLinkHref example_doubles (lit ''src/a.ts:10'') = Some ?t"
    by code_simp
  have p: "path ?t = Some (lit ''src/a.ts'')"
    by simp
  have m1: "(case Option.bind (example_marked (buildRenderer example_doubles None)
                                (linkified (lit ''src/a.ts:10''))) Some of
               Some html \<Rightarrow> html
             | None \<Rightarrow> lit ''<p>'' @ escapeHtml (lit ''src/a.ts:10'') @ lit ''</p>'') =
            lit ''<p><a href=\"command:symfocus.openFile?%5B%22src%2Fa.ts%22%2C10%2C1%5D\" data-dw-path=\"src/a.ts\" data-dw-line=\"10\" data-dw-col=\"1\">src/a.ts<span class=\"dw-line-number\">:10</span></a></p>\<newline>''"
    by code_simp
  have m2: "(case Option.bind (example_marked (buildRenderer example_doubles (Some {}))
                                (linkified (lit ''src/a.ts:10''))) Some of
               Some html \<Rightarrow> html
             | None \<Rightarrow> lit ''<p>'' @ escapeHtml (lit ''src/a.ts:10'') @ lit ''</p>'') =
            lit ''<p>src/a.ts:10</p>\<newline>''"
    by code_simp
  show ?thesis
    using no_allow_list_allows_all [OF o t p, of example_marked Some "lit ''src/a.ts:10''"
        "lit ''src/a.ts''" "Some (Exact 10)" None None "lit ''src/a.ts:10''"] t m1 m2
    by simp
qed

subsection \<open>Targets with a double slash\<close>




text \<open>
  The line at the renderer: for the target \<open>file://a.ts\<close> and the link text
  \<open>see a.ts:42\<close> the anchor carries line 42, not line 1.
\<close>

lemma line_from_text_example:
  "buildRenderer dbl None (lit ''file://a.ts'') None (lit ''see a.ts:42'') =
     Some (lit ''<a href=\"command:symfocus.openFile?%5B%22%2F%2Fa.ts%22%2C42%2C1%2Cnull%5D\" data-dw-path=\"//a.ts\" data-dw-line=\"42\" data-dw-col=\"1\">see a.ts<span class=\"dw-line-number\">:42</span></a>'')"
  by code_simp

subsection \<open>A location in back-ticks, with and without the allow-list\<close>

lemma range_key:
  "isAllowedFileLink dbl (lit ''src/a.ts'') (Some (Exact 10)) (Some (Exact 12)) (Some A) =
     (lit ''src/a.ts:10-12'' \<in> A)"
proof -
  have d: "decimal 10 = lit ''10''" "decimal 12 = lit ''12''"
    by code_simp+
  have k: "lit ''src/a.ts'' @ lit '':'' @ lit ''10'' @ lit ''-'' @ lit ''12'' = lit ''src/a.ts:10-12''"
    by (simp add: lit_def)
  show ?thesis
    by (simp add: isAllowedFileLink_def positive_def number_ge_def number_string_def d k)
qed

text \<open>
  The two passes on \<open>`src/a.ts:10-12`\<close>, and the renderer on the two links of the
  result, for any allow-list \<open>A\<close>: each link is an anchor when \<open>src/a.ts:10-12\<close> is in
  \<open>A\<close>, and its text alone when it is not.
\<close>

lemma location_passes:
  "linkifyBacktickPathLine (lit ''`src/a.ts:10-12`'') = lit ''[src/a.ts:10-12](src/a.ts:10-12)''"
  "linkified (lit ''`src/a.ts:10-12`'') =
     lit ''[s[rc/a.ts:10-12](rc/a.ts:10-12)]([src/a.ts:10-12](src/a.ts:10-12))''"
  by code_simp+

lemma location_links:
  assumes "ti = None \<or> ti = Some []"
  shows "buildRenderer dbl (Some A) (lit ''rc/a.ts:10-12'') ti (lit ''rc/a.ts:10-12'') =
           Some (if lit ''src/a.ts:10-12'' \<in> A then example_inner_anchor else lit ''rc/a.ts:10-12'')"
    and "buildRenderer dbl (Some A) (lit ''[src/a.ts:10-12](src/a.ts:10-12)'') ti
             (lit ''s'' @ example_inner_anchor) =
           Some (if lit ''src/a.ts:10-12'' \<in> A then example_outer_anchor
                 else lit ''s'' @ example_inner_anchor)"
    and "buildRenderer dbl (Some A) (lit ''[src/a.ts:10-12](src/a.ts:10-12)'') ti
             (lit ''s'' @ lit ''rc/a.ts:10-12'') =
           Some (if lit ''src/a.ts:10-12'' \<in> A then anchor dbl \<lparr>href = lit ''command:symfocus.openFile?%5B%22src%2Fa.ts%22%2C10%2C1%2C12%5D'',
             path = Some (lit ''src/a.ts''), line = Some (Exact 10), col = Some (Exact 1),
             endLine = Some (Exact 12), symbol = None\<rparr> ti (lit ''s'' @ lit ''rc/a.ts:10-12'')
                 else lit ''src/a.ts:10-12'')"
proof -
  let ?t = "\<lparr>href = lit ''command:symfocus.openFile?%5B%22src%2Fa.ts%22%2C10%2C1%2C12%5D'',
             path = Some (lit ''src/a.ts''), line = Some (Exact 10), col = Some (Exact 1),
             endLine = Some (Exact 12), symbol = None\<rparr>"
  have tin: "transformLinkHref dbl (lit ''rc/a.ts:10-12'') = Some ?t"
    by code_simp
  have tout: "transformLinkHref dbl (lit ''[src/a.ts:10-12](src/a.ts:10-12)'') = Some ?t"
    by code_simp
  have lft: "\<And>t. line_from_text dbl ?t t = Some ?t"
    by (simp add: line_from_text_def)
  have a1: "anchor dbl ?t None (lit ''rc/a.ts:10-12'') = example_inner_anchor"
           "anchor dbl ?t (Some []) (lit ''rc/a.ts:10-12'') = example_inner_anchor"
    by code_simp+
  have a2: "anchor dbl ?t None (lit ''s'' @ example_inner_anchor) = example_outer_anchor"
           "anchor dbl ?t (Some []) (lit ''s'' @ example_inner_anchor) = example_outer_anchor"
    by code_simp+
  have s: "lit ''s'' @ lit ''rc/a.ts:10-12'' = lit ''src/a.ts:10-12''"
    by (simp add: lit_def)
  show "buildRenderer dbl (Some A) (lit ''rc/a.ts:10-12'') ti (lit ''rc/a.ts:10-12'') =
           Some (if lit ''src/a.ts:10-12'' \<in> A then example_inner_anchor else lit ''rc/a.ts:10-12'')"
    using assms a1 by (auto simp: buildRenderer_def tin lft range_key)
  show "buildRenderer dbl (Some A) (lit ''[src/a.ts:10-12](src/a.ts:10-12)'') ti
             (lit ''s'' @ example_inner_anchor) =
           Some (if lit ''src/a.ts:10-12'' \<in> A then example_outer_anchor
                 else lit ''s'' @ example_inner_anchor)"
    using assms a2 by (auto simp: buildRenderer_def tout lft range_key)
  show "buildRenderer dbl (Some A) (lit ''[src/a.ts:10-12](src/a.ts:10-12)'') ti
             (lit ''s'' @ lit ''rc/a.ts:10-12'') =
           Some (if lit ''src/a.ts:10-12'' \<in> A then anchor dbl ?t ti (lit ''s'' @ lit ''rc/a.ts:10-12'')
                 else lit ''src/a.ts:10-12'')"
    using s by (auto simp: buildRenderer_def tout lft range_key)
qed

text \<open>
  C2. \<open>renderMarkdown\<close> on the text \<open>`src/a.ts:10-12`\<close>. The back-tick pass writes the
  link \<open>[src/a.ts:10-12](src/a.ts:10-12)\<close>; the second pass runs on that result and finds
  two more references in it (\<open>rc/a.ts:10-12\<close> after the \<open>s\<close>, and the whole target after
  the parenthesis), so the text handed to \<open>marked.parse\<close> is a link whose text holds a
  second link. \<open>marked.parse\<close> is not code of this repository; the one assumption on it
  is how it treats that text: it calls the renderer for the inner link, then for the outer
  link with the markup of the inner one after the \<open>s\<close> as its text, both with no title
  (null or empty), and puts the result in a paragraph. Then, for every allow-list \<open>A\<close>
  and every sanitizer:

  \<^item> when \<open>src/a.ts:10-12\<close> is in \<open>A\<close>, \<open>renderMarkdown\<close> returns what the sanitizer makes
    of a paragraph that holds an anchor with an open-file href and the data attributes path
    \<open>src/a.ts\<close>, line 10, column 1, end line 12, around the \<open>s\<close> and a second anchor with
    the same href and attributes (the path \<open>rc/a.ts\<close> is normalized to \<open>src/a.ts\<close>);

  \<^item> when it is not (the empty allow-list among these), \<open>renderMarkdown\<close> returns what
    the sanitizer makes of the paragraph \<open>src/a.ts:10-12\<close>, with no anchor and no data
    attribute;

  \<^item> when the sanitizer throws, it returns the fallback paragraph.
\<close>

theorem allow_list_gates_location_link:
  assumes nested:
          "marked_parse (buildRenderer dbl (Some A))
             (lit ''[s[rc/a.ts:10-12](rc/a.ts:10-12)]([src/a.ts:10-12](src/a.ts:10-12))'') =
           Option.bind (buildRenderer dbl (Some A) (lit ''rc/a.ts:10-12'') ti (lit ''rc/a.ts:10-12''))
             (\<lambda>inner.
                Option.bind
                  (buildRenderer dbl (Some A) (lit ''[src/a.ts:10-12](src/a.ts:10-12)'') ti
                     (lit ''s'' @ inner))
                  (\<lambda>outer. Some (lit ''<p>'' @ outer @ lit ''</p>\<newline>'')))"
      and no_title: "ti = None \<or> ti = Some []"
  shows "linkified (lit ''`src/a.ts:10-12`'') =
           lit ''[s[rc/a.ts:10-12](rc/a.ts:10-12)]([src/a.ts:10-12](src/a.ts:10-12))''
         \<and> (lit ''src/a.ts:10-12'' \<in> A \<longrightarrow>
              renderMarkdown dbl marked_parse sanitize (lit ''`src/a.ts:10-12`'')
                  (Some \<lparr>allowedLinks = Some A\<rparr>) =
                Some (case sanitize (lit ''<p><a href=\"command:symfocus.openFile?%5B%22src%2Fa.ts%22%2C10%2C1%2C12%5D\" data-dw-path=\"src/a.ts\" data-dw-line=\"10\" data-dw-col=\"1\" data-dw-line-end=\"12\">s<a href=\"command:symfocus.openFile?%5B%22src%2Fa.ts%22%2C10%2C1%2C12%5D\" data-dw-path=\"src/a.ts\" data-dw-line=\"10\" data-dw-col=\"1\" data-dw-line-end=\"12\">rc/a.ts<span class=\"dw-line-number\">:10-12</spa<span class=\"dw-line-number\">:10-12</span></a></p>\<newline>'') of
                        Some html \<Rightarrow> html
                      | None \<Rightarrow> lit ''<p>`src/a.ts:10-12`</p>''))
         \<and> (lit ''src/a.ts:10-12'' \<notin> A \<longrightarrow>
              renderMarkdown dbl marked_parse sanitize (lit ''`src/a.ts:10-12`'')
                  (Some \<lparr>allowedLinks = Some A\<rparr>) =
                Some (case sanitize (lit ''<p>src/a.ts:10-12</p>\<newline>'') of
                        Some html \<Rightarrow> html
                      | None \<Rightarrow> lit ''<p>`src/a.ts:10-12`</p>''))"
proof -
  have e: "escapeHtml (lit ''`src/a.ts:10-12`'') = lit ''`src/a.ts:10-12`''"
    by code_simp
  have fb: "lit ''<p>'' @ lit ''`src/a.ts:10-12`'' @ lit ''</p>'' = lit ''<p>`src/a.ts:10-12`</p>''"
    by (simp add: lit_def)
  have m1: "lit ''<p>'' @ example_outer_anchor @ lit ''</p>\<newline>'' =
            lit ''<p><a href=\"command:symfocus.openFile?%5B%22src%2Fa.ts%22%2C10%2C1%2C12%5D\" data-dw-path=\"src/a.ts\" data-dw-line=\"10\" data-dw-col=\"1\" data-dw-line-end=\"12\">s<a href=\"command:symfocus.openFile?%5B%22src%2Fa.ts%22%2C10%2C1%2C12%5D\" data-dw-path=\"src/a.ts\" data-dw-line=\"10\" data-dw-col=\"1\" data-dw-line-end=\"12\">rc/a.ts<span class=\"dw-line-number\">:10-12</spa<span class=\"dw-line-number\">:10-12</span></a></p>\<newline>''"
    by code_simp
  have m2: "lit ''<p>'' @ lit ''src/a.ts:10-12'' @ lit ''</p>\<newline>'' = lit ''<p>src/a.ts:10-12</p>\<newline>''"
    by (simp add: lit_def)
  have s: "lit ''s'' @ lit ''rc/a.ts:10-12'' = lit ''src/a.ts:10-12''"
    by (simp add: lit_def)
  have r: "renderMarkdown dbl marked_parse sanitize (lit ''`src/a.ts:10-12`'')
             (Some \<lparr>allowedLinks = Some A\<rparr>) =
           Some (case Option.bind
                        (marked_parse (buildRenderer dbl (Some A))
                           (lit ''[s[rc/a.ts:10-12](rc/a.ts:10-12)]([src/a.ts:10-12](src/a.ts:10-12))''))
                        sanitize of
                   Some html \<Rightarrow> html
                 | None \<Rightarrow> lit ''<p>`src/a.ts:10-12`</p>'')"
    using renderMarkdown_unfold[of dbl marked_parse sanitize "lit ''`src/a.ts:10-12`''"
            "Some \<lparr>allowedLinks = Some A\<rparr>"]
    by (simp add: location_passes e fb split: option.split)
  have yes: "lit ''src/a.ts:10-12'' \<in> A \<Longrightarrow>
      marked_parse (buildRenderer dbl (Some A)) (lit ''[s[rc/a.ts:10-12](rc/a.ts:10-12)]([src/a.ts:10-12](src/a.ts:10-12))'') =
      Some (lit ''<p><a href=\"command:symfocus.openFile?%5B%22src%2Fa.ts%22%2C10%2C1%2C12%5D\" data-dw-path=\"src/a.ts\" data-dw-line=\"10\" data-dw-col=\"1\" data-dw-line-end=\"12\">s<a href=\"command:symfocus.openFile?%5B%22src%2Fa.ts%22%2C10%2C1%2C12%5D\" data-dw-path=\"src/a.ts\" data-dw-line=\"10\" data-dw-col=\"1\" data-dw-line-end=\"12\">rc/a.ts<span class=\"dw-line-number\">:10-12</spa<span class=\"dw-line-number\">:10-12</span></a></p>\<newline>'')"
    using nested location_links(1,2)[OF no_title, of dbl A] m1 by simp
  have no: "lit ''src/a.ts:10-12'' \<notin> A \<Longrightarrow>
      marked_parse (buildRenderer dbl (Some A)) (lit ''[s[rc/a.ts:10-12](rc/a.ts:10-12)]([src/a.ts:10-12](src/a.ts:10-12))'') =
      Some (lit ''<p>src/a.ts:10-12</p>\<newline>'')"
    using nested location_links(1,3)[OF no_title, of dbl A] m2 s by simp
  show ?thesis
    using r yes no location_passes(2) by (auto split: option.splits)
qed

theorem allow_list_gates_location_link_witness:
  "renderMarkdown example_doubles example_marked Some (lit ''`src/a.ts:10-12`'')
       (Some \<lparr>allowedLinks = Some {lit ''src/a.ts:10-12'', lit ''src/b.ts:7''}\<rparr>) =
     Some (lit ''<p><a href=\"command:symfocus.openFile?%5B%22src%2Fa.ts%22%2C10%2C1%2C12%5D\" data-dw-path=\"src/a.ts\" data-dw-line=\"10\" data-dw-col=\"1\" data-dw-line-end=\"12\">s<a href=\"command:symfocus.openFile?%5B%22src%2Fa.ts%22%2C10%2C1%2C12%5D\" data-dw-path=\"src/a.ts\" data-dw-line=\"10\" data-dw-col=\"1\" data-dw-line-end=\"12\">rc/a.ts<span class=\"dw-line-number\">:10-12</spa<span class=\"dw-line-number\">:10-12</span></a></p>\<newline>'')
   \<and> renderMarkdown example_doubles example_marked Some (lit ''`src/a.ts:10-12`'')
       (Some \<lparr>allowedLinks = Some {}\<rparr>) =
     Some (lit ''<p>src/a.ts:10-12</p>\<newline>'')
   \<and> renderMarkdown example_doubles example_marked Some (lit ''`src/a.ts:10-12`'')
       (Some \<lparr>allowedLinks = Some {lit ''src/a.ts:10'', lit ''src/b.ts:10-12''}\<rparr>) =
     Some (lit ''<p>src/a.ts:10-12</p>\<newline>'')"
proof -
  have h1: "example_marked (buildRenderer example_doubles (Some {lit ''src/a.ts:10-12'', lit ''src/b.ts:7''}))
             (lit ''[s[rc/a.ts:10-12](rc/a.ts:10-12)]([src/a.ts:10-12](src/a.ts:10-12))'') =
           Option.bind (buildRenderer example_doubles (Some {lit ''src/a.ts:10-12'', lit ''src/b.ts:7''}) (lit ''rc/a.ts:10-12'') None (lit ''rc/a.ts:10-12''))
             (\<lambda>inner.
                Option.bind
                  (buildRenderer example_doubles (Some {lit ''src/a.ts:10-12'', lit ''src/b.ts:7''}) (lit ''[src/a.ts:10-12](src/a.ts:10-12)'') None
                     (lit ''s'' @ inner))
                  (\<lambda>outer. Some (lit ''<p>'' @ outer @ lit ''</p>\<newline>'')))"
    by code_simp
  have h2: "example_marked (buildRenderer example_doubles (Some {}))
             (lit ''[s[rc/a.ts:10-12](rc/a.ts:10-12)]([src/a.ts:10-12](src/a.ts:10-12))'') =
           Option.bind (buildRenderer example_doubles (Some {}) (lit ''rc/a.ts:10-12'') None (lit ''rc/a.ts:10-12''))
             (\<lambda>inner.
                Option.bind
                  (buildRenderer example_doubles (Some {}) (lit ''[src/a.ts:10-12](src/a.ts:10-12)'') None
                     (lit ''s'' @ inner))
                  (\<lambda>outer. Some (lit ''<p>'' @ outer @ lit ''</p>\<newline>'')))"
    by code_simp
  have h3: "example_marked (buildRenderer example_doubles (Some {lit ''src/a.ts:10'', lit ''src/b.ts:10-12''}))
             (lit ''[s[rc/a.ts:10-12](rc/a.ts:10-12)]([src/a.ts:10-12](src/a.ts:10-12))'') =
           Option.bind (buildRenderer example_doubles (Some {lit ''src/a.ts:10'', lit ''src/b.ts:10-12''}) (lit ''rc/a.ts:10-12'') None (lit ''rc/a.ts:10-12''))
             (\<lambda>inner.
                Option.bind
                  (buildRenderer example_doubles (Some {lit ''src/a.ts:10'', lit ''src/b.ts:10-12''}) (lit ''[src/a.ts:10-12](src/a.ts:10-12)'') None
                     (lit ''s'' @ inner))
                  (\<lambda>outer. Some (lit ''<p>'' @ outer @ lit ''</p>\<newline>'')))"
    by code_simp
  have t: "(None :: jstr option) = None \<or> (None :: jstr option) = Some []"
    by simp
  have k1: "lit ''src/a.ts:10-12'' \<in> {lit ''src/a.ts:10-12'', lit ''src/b.ts:7''}"
    by simp
  have k2: "lit ''src/a.ts:10-12'' \<notin> {}"
    by simp
  have k3: "lit ''src/a.ts:10-12'' \<notin> {lit ''src/a.ts:10'', lit ''src/b.ts:10-12''}"
    by (simp add: lit_def)
  show ?thesis
    using
      allow_list_gates_location_link
        [where marked_parse = example_marked and dbl = example_doubles and ti = None
           and A = "{lit ''src/a.ts:10-12'', lit ''src/b.ts:7''}" and sanitize = Some, OF h1 t]
      allow_list_gates_location_link
        [where marked_parse = example_marked and dbl = example_doubles and ti = None
           and A = "{}" and sanitize = Some, OF h2 t]
      allow_list_gates_location_link
        [where marked_parse = example_marked and dbl = example_doubles and ti = None
           and A = "{lit ''src/a.ts:10'', lit ''src/b.ts:10-12''}" and sanitize = Some, OF h3 t]
      k1 k2 k3
    by simp
qed

subsection \<open>Fenced code\<close>

text \<open>
  A match never ends before it starts, and a match of \<open>FENCE\<close> consumes at least its
  three opening back-ticks: the scan for fenced blocks always moves on, and the test on
  the lengths in \<open>split_fences\<close> never fails.
\<close>

lemma rmatch_Seq_elim:
  assumes "(caps', pos') \<in> set (rmatch (Seq a b) caps pos)"
  obtains c1 pos1 where "(c1, pos1) \<in> set (rmatch a caps pos)"
    and "(caps', pos') \<in> set (rmatch b c1 pos1)"
  using assms by auto

lemma rmatch_shorter:
  "(caps', pos') \<in> set (rmatch r caps pos) \<Longrightarrow> length (snd pos') \<le> length (snd pos)"
proof (induction r caps pos arbitrary: caps' pos' rule: rmatch.induct)
  case (1 l caps p s)
  then show ?case by (simp split: if_splits)
next
  case (2 rs caps p s)
  then show ?case by (cases s) (simp_all split: if_splits)
next
  case (3 rs caps p s)
  then show ?case by (cases s) (simp_all split: if_splits)
next
  case (4 a b caps pos)
  from "4.prems" obtain c1 pos1 where
    m1: "(c1, pos1) \<in> set (rmatch a caps pos)" and
    m2: "(caps', pos') \<in> set (rmatch b c1 pos1)"
    by (rule rmatch_Seq_elim)
  have "length (snd pos1) \<le> length (snd pos)" using "4.IH"(1) m1 by blast
  moreover have "length (snd pos') \<le> length (snd pos1)" using "4.IH"(2) m1 m2 by blast
  ultimately show ?case by simp
next
  case (5 a b caps pos)
  then show ?case by (simp, blast)
next
  case (6 a caps pos)
  then show ?case by (simp, blast)
next
  case (7 a caps p s)
  from "7.prems" have
    "(caps', pos') = (caps, (p, s)) \<or>
     (\<exists>c1 p1 s1. (c1, (p1, s1)) \<in> set (rmatch a caps (p, s)) \<and> length s1 < length s
        \<and> (caps', pos') \<in> set (rmatch (Star a) c1 (p1, s1)))"
    by (subst (asm) rmatch.simps(7)) (auto split: if_splits)
  then show ?case
  proof
    assume "(caps', pos') = (caps, (p, s))"
    then show ?thesis by simp
  next
    assume "\<exists>c1 p1 s1. (c1, (p1, s1)) \<in> set (rmatch a caps (p, s)) \<and> length s1 < length s
        \<and> (caps', pos') \<in> set (rmatch (Star a) c1 (p1, s1))"
    then obtain c1 p1 s1 where m: "(c1, (p1, s1)) \<in> set (rmatch a caps (p, s))"
      "length s1 < length s" "(caps', pos') \<in> set (rmatch (Star a) c1 (p1, s1))"
      by blast
    have "length (snd pos') \<le> length (snd (p1, s1))"
      using "7.IH"(2)[OF m(1) refl refl m(2) m(3)] .
    then show ?thesis using m(2) by simp
  qed
next
  case (8 a caps p s)
  from "8.prems" have
    "(caps', pos') = (caps, (p, s)) \<or>
     (\<exists>c1 p1 s1. (c1, (p1, s1)) \<in> set (rmatch a caps (p, s)) \<and> length s1 < length s
        \<and> (caps', pos') \<in> set (rmatch (LazyStar a) c1 (p1, s1)))"
    by (subst (asm) rmatch.simps(8)) (auto split: if_splits)
  then show ?case
  proof
    assume "(caps', pos') = (caps, (p, s))"
    then show ?thesis by simp
  next
    assume "\<exists>c1 p1 s1. (c1, (p1, s1)) \<in> set (rmatch a caps (p, s)) \<and> length s1 < length s
        \<and> (caps', pos') \<in> set (rmatch (LazyStar a) c1 (p1, s1))"
    then obtain c1 p1 s1 where m: "(c1, (p1, s1)) \<in> set (rmatch a caps (p, s))"
      "length s1 < length s" "(caps', pos') \<in> set (rmatch (LazyStar a) c1 (p1, s1))"
      by blast
    have "length (snd pos') \<le> length (snd (p1, s1))"
      using "8.IH"(2)[OF m(1) refl refl m(2) m(3)] .
    then show ?thesis using m(2) by simp
  qed
next
  case (9 n a caps p s)
  from "9.prems" obtain c1 p1 s1 where "(c1, (p1, s1)) \<in> set (rmatch a caps (p, s))"
    and "pos' = (p1, s1)"
    by auto
  then show ?case using "9.IH" by fastforce
next
  case (10 caps p s)
  then show ?case by (simp split: if_splits)
next
  case (11 caps p s)
  then show ?case by (simp split: if_splits)
next
  case (12 a caps pos)
  then show ?case by (cases "rmatch a caps pos") (auto split: prod.splits)
next
  case (13 rs caps p s)
  then show ?case by (cases p) (simp_all split: if_splits)
qed

lemma startsWith_length: "startsWith s p \<Longrightarrow> length p \<le> length s"
proof -
  assume "startsWith s p"
  then have "length (take (length p) s) = length p"
    by (simp add: startsWith_def)
  then show ?thesis by simp
qed

lemma FENCE_match_not_empty:
  assumes "(caps', pos') \<in> set (rmatch FENCE caps (p, s))"
  shows "length (snd pos') < length s"
proof -
  obtain rest where F: "FENCE = Seq (Lit (lit ''```'')) rest"
    by (simp add: FENCE_def)
  from assms obtain c1 pos1 where
    m1: "(c1, pos1) \<in> set (rmatch (Lit (lit ''```'')) caps (p, s))" and
    m2: "(caps', pos') \<in> set (rmatch rest c1 pos1)"
    unfolding F by (rule rmatch_Seq_elim)
  have st: "startsWith s (lit ''```'')" and p1: "snd pos1 = drop (length (lit ''```'')) s"
    using m1 by (auto split: if_splits)
  have "length (lit ''```'') \<le> length s"
    using st by (rule startsWith_length)
  moreover have "length (lit ''```'') = 3"
    by (simp add: lit_def)
  ultimately have "length (snd pos1) < length s"
    using p1 by simp
  moreover have "length (snd pos') \<le> length (snd pos1)"
    using m2 by (rule rmatch_shorter)
  ultimately show ?thesis by simp
qed

lemma re_exec_FENCE_shorter:
  "re_exec FENCE p s = Some f \<Longrightarrow> length (snd (after f)) < length s"
proof (induction s arbitrary: p f)
  case Nil
  show ?case
  proof (cases "rmatch FENCE [] (p, [])")
    case Nil
    then show ?thesis using Nil.prems by simp
  next
    case (Cons m ms)
    then have "(fst m, snd m) \<in> set (rmatch FENCE [] (p, []))" by simp
    then show ?thesis using FENCE_match_not_empty by fastforce
  qed
next
  case (Cons c s)
  show ?case
  proof (cases "rmatch FENCE [] (p, c # s)")
    case Nil
    then obtain g where g: "re_exec FENCE (Some c) s = Some g"
      and f: "f = g\<lparr>skipped := c # skipped g\<rparr>"
      using Cons.prems by (auto split: option.splits)
    then show ?thesis using Cons.IH[OF g] by simp
  next
    case (Cons m ms)
    obtain caps' p' s' where m: "m = (caps', (p', s'))" by (cases m) auto
    then have "(caps', (p', s')) \<in> set (rmatch FENCE [] (p, c # s))" using Cons by simp
    then have "length (snd (p', s')) < length (c # s)"
      by (rule FENCE_match_not_empty)
    then show ?thesis using Cons Cons.prems m by auto
  qed
qed

lemma split_fences_unfold:
  "split_fences p s =
     (case re_exec FENCE p s of
        None \<Rightarrow> [s]
      | Some f \<Rightarrow> skipped f # matched f # split_fences (fst (after f)) (snd (after f)))"
  using re_exec_FENCE_shorter[of p s]
  by (subst split_fences.simps) (auto split: option.splits)

text \<open>
  A fenced block whose opening fence is three back-ticks, word characters and a line
  break is kept as it is by both passes, and a bare reference outside any fence is
  rewritten into a link.
\<close>

lemma fence_examples:
  "linkified (lit ''```ts\<newline>src/b.ts:7\<newline>```'') = lit ''```ts\<newline>src/b.ts:7\<newline>```''
   \<and> linkified (lit ''src/b.ts:7'') = lit ''[src/b.ts:7](src/b.ts:7)''"
  by code_simp

text \<open>
  C6 fails on the code. The opening fence is recognised by \<open>```[\w]*\n\<close> only, so the
  fence \<open>```c++\<close> does not open a block for the two passes. In the text below, the closing
  fence of the \<open>c++\<close> block is then taken for an opening fence and paired with the
  opening fence of the \<open>ts\<close> block, and the content of the \<open>ts\<close> block is treated as
  text outside any fence: the reference \<open>src/b.ts:7\<close> inside that fenced block is
  rewritten into a link.
\<close>

theorem fenced_reference_rewritten:
  "linkified (lit ''```c++\<newline>int x;\<newline>```\<newline>\<newline>```ts\<newline>src/b.ts:7\<newline>```'') =
     lit ''```c++\<newline>int x;\<newline>```\<newline>\<newline>```ts\<newline>[src/b.ts:7](src/b.ts:7)\<newline>```''"
  by code_simp

end
